theory Spec2Isabelle
  imports Complex_Main
begin

text \<open>
  A model of the currency converter of \<^verbatim>\<open>src/src/App.tsx\<close>, a single React component:
  its tables of currencies, the resolver of exchange rates, the generator of the
  simulated historical series, the handlers and the text it renders. The built-in
  functions of JavaScript and the functions of date-fns that the component calls are
  modelled first, after ECMA-262 and the source of date-fns; the component follows, with
  the names of the source; the properties come last.
\<close>

section \<open>JavaScript numbers\<close>

text \<open>
  A JavaScript number is an IEEE 754 double: \<open>NaN\<close>, one of the two infinities, or a
  finite value, which is represented by the real it denotes. The two zeros are one value
  \<open>Fin 0\<close> (a zero divisor is read as \<open>+0\<close>).
\<close>

datatype number = NaN | PosInf | NegInf | Fin real

text \<open>\<open>ToBoolean\<close> on a number: everything but \<open>NaN\<close> and zero is truthy.\<close>

fun truthy :: "number \<Rightarrow> bool" where
  "truthy NaN = False"
| "truthy (Fin x) = (x \<noteq> 0)"
| "truthy PosInf = True"
| "truthy NegInf = True"

fun isFinite :: "number \<Rightarrow> bool" where
  "isFinite (Fin x) = True"
| "isFinite n = False"

text \<open>The real that a finite number denotes.\<close>

fun realOf :: "number \<Rightarrow> real" where
  "realOf (Fin x) = x"
| "realOf n = 0"

text \<open>An infinity of the given sign (\<open>True\<close> is positive).\<close>

definition inf_of :: "bool \<Rightarrow> number" where
  "inf_of positive = (if positive then PosInf else NegInf)"

subsection \<open>Rounding to the nearest double\<close>

text \<open>
  Every literal, every parsed text and every result of an arithmetic operator is the
  double nearest to the exact value, ties going to the even significand. \<open>pow2 e\<close> is
  two to the power \<open>e\<close>. \<open>rne\<close> rounds a real to the nearest integer, a tie to the
  even one. \<open>expo x\<close> is the exponent of the binade of \<open>x\<close>, and that of the
  subnormal numbers below two to the power \<open>- 1022\<close>; the doubles of that binade are
  the multiples of \<open>pow2 (expo x - 52)\<close>. \<open>mag x\<close> is the magnitude of \<open>x\<close>
  rounded to such a multiple, and a magnitude that rounds to two to the power 1024 or
  more overflows to an infinity.
\<close>

definition pow2 :: "int \<Rightarrow> real" where
  "pow2 e = (if 0 \<le> e then 2 ^ nat e else 1 / 2 ^ nat (- e))"

definition rne :: "real \<Rightarrow> int" where
  "rne r = (let f = \<lfloor>r\<rfloor>; d = r - of_int f in
     if d < 1 / 2 then f else if 1 / 2 < d then f + 1 else if even f then f else f + 1)"

definition expo :: "real \<Rightarrow> int" where
  "expo x = max \<lfloor>log 2 \<bar>x\<bar>\<rfloor> (- 1022)"

definition mag :: "real \<Rightarrow> real" where
  "mag x = of_int (rne (\<bar>x\<bar> / pow2 (expo x - 52))) * pow2 (expo x - 52)"

definition roundToDouble :: "real \<Rightarrow> number" where
  "roundToDouble x =
     (if x = 0 then Fin 0
      else if pow2 1024 \<le> mag x then inf_of (0 < x)
      else Fin (if 0 < x then mag x else - mag x))"

text \<open>The reals that are the value of a finite double.\<close>

definition isDouble :: "real \<Rightarrow> bool" where
  "isDouble y =
     (\<exists>k j. y = of_int k * pow2 j \<and> \<bar>k\<bar> < 2 ^ 53 \<and> - 1074 \<le> j \<and> \<bar>y\<bar> < pow2 1024)"

subsection \<open>Arithmetic\<close>

text \<open>The operators \<open>*\<close>, \<open>/\<close>, \<open>+\<close> and \<open>-\<close>: the exact result, rounded.\<close>

fun num_mul :: "number \<Rightarrow> number \<Rightarrow> number" where
  "num_mul (Fin x) (Fin y) = roundToDouble (x * y)"
| "num_mul NaN n = NaN"
| "num_mul n NaN = NaN"
| "num_mul (Fin x) PosInf = (if x = 0 then NaN else inf_of (0 < x))"
| "num_mul (Fin x) NegInf = (if x = 0 then NaN else inf_of (x < 0))"
| "num_mul PosInf (Fin y) = (if y = 0 then NaN else inf_of (0 < y))"
| "num_mul NegInf (Fin y) = (if y = 0 then NaN else inf_of (y < 0))"
| "num_mul PosInf PosInf = PosInf"
| "num_mul PosInf NegInf = NegInf"
| "num_mul NegInf PosInf = NegInf"
| "num_mul NegInf NegInf = PosInf"

fun num_div :: "number \<Rightarrow> number \<Rightarrow> number" where
  "num_div (Fin x) (Fin y) =
     (if y = 0 then (if x = 0 then NaN else inf_of (0 < x)) else roundToDouble (x / y))"
| "num_div NaN n = NaN"
| "num_div n NaN = NaN"
| "num_div (Fin x) PosInf = Fin 0"
| "num_div (Fin x) NegInf = Fin 0"
| "num_div PosInf (Fin y) = inf_of (0 \<le> y)"
| "num_div NegInf (Fin y) = inf_of (y < 0)"
| "num_div PosInf PosInf = NaN"
| "num_div PosInf NegInf = NaN"
| "num_div NegInf PosInf = NaN"
| "num_div NegInf NegInf = NaN"

fun negate :: "number \<Rightarrow> number" where
  "negate NaN = NaN"
| "negate PosInf = NegInf"
| "negate NegInf = PosInf"
| "negate (Fin x) = Fin (- x)"

fun num_add :: "number \<Rightarrow> number \<Rightarrow> number" where
  "num_add (Fin x) (Fin y) = roundToDouble (x + y)"
| "num_add NaN n = NaN"
| "num_add n NaN = NaN"
| "num_add PosInf NegInf = NaN"
| "num_add NegInf PosInf = NaN"
| "num_add PosInf n = PosInf"
| "num_add NegInf n = NegInf"
| "num_add (Fin x) PosInf = PosInf"
| "num_add (Fin x) NegInf = NegInf"

definition num_sub :: "number \<Rightarrow> number \<Rightarrow> number" where
  "num_sub a b = num_add a (negate b)"

text \<open>The comparison \<open><=\<close> of two numbers, false when one of them is \<open>NaN\<close>.\<close>

fun num_le :: "number \<Rightarrow> number \<Rightarrow> bool" where
  "num_le NaN n = False"
| "num_le n NaN = False"
| "num_le NegInf n = True"
| "num_le n PosInf = True"
| "num_le PosInf n = False"
| "num_le n NegInf = False"
| "num_le (Fin x) (Fin y) = (x \<le> y)"

section \<open>Strings and numbers\<close>

text \<open>
  The two built-in conversions the component uses, \<open>parseFloat\<close> and
  \<open>Number.prototype.toFixed\<close>, follow their definitions in ECMA-262. Strings are
  taken to be ASCII, so the white space skipped by \<open>parseFloat\<close> is the ASCII white
  space and line terminators.
\<close>

definition isWhiteSpace :: "char \<Rightarrow> bool" where
  "isWhiteSpace c = (c \<in> set [CHR 0x09, CHR 0x0A, CHR 0x0B, CHR 0x0C, CHR 0x0D, CHR '' ''])"

definition isDigit :: "char \<Rightarrow> bool" where
  "isDigit c = (c \<in> set ''0123456789'')"

definition digitValue :: "char \<Rightarrow> nat" where
  "digitValue c = of_char c - 48"

definition digitsValue :: "string \<Rightarrow> nat" where
  "digitsValue ds = foldl (\<lambda>a c. 10 * a + digitValue c) 0 ds"

definition scale10 :: "int \<Rightarrow> real \<Rightarrow> real" where
  "scale10 e x = (if 0 \<le> e then x * 10 ^ nat e else x / 10 ^ nat (- e))"

text \<open>\<open>SignedInteger\<close>: an optional sign and at least one digit, at the front of \<open>s\<close>.\<close>

definition signedInteger :: "string \<Rightarrow> int option" where
  "signedInteger s =
     (case s of
        [] \<Rightarrow> None
      | c # r \<Rightarrow>
          if c = CHR ''+'' \<or> c = CHR ''-''
          then (if takeWhile isDigit r = [] then None
                else Some ((if c = CHR ''-'' then - 1 else 1)
                       * int (digitsValue (takeWhile isDigit r))))
          else (if takeWhile isDigit s = [] then None
                else Some (int (digitsValue (takeWhile isDigit s)))))"

text \<open>The value of the \<open>ExponentPart\<close> at the front of \<open>s\<close>, 0 when there is none.\<close>

definition exponentPart :: "string \<Rightarrow> int" where
  "exponentPart s =
     (case s of
        [] \<Rightarrow> 0
      | c # r \<Rightarrow>
          if c = CHR ''e'' \<or> c = CHR ''E''
          then (case signedInteger r of None \<Rightarrow> 0 | Some e \<Rightarrow> e)
          else 0)"

text \<open>
  The value of the longest prefix of \<open>s\<close> that is a \<open>StrUnsignedDecimalLiteral\<close>
  (\<open>Infinity\<close>, digits with an optional fraction, or a fraction alone, each but the
  first with an optional exponent), \<open>NaN\<close> when no prefix is one. The mathematical
  value of the literal is rounded to the nearest double: a text such as \<open>1e400\<close>
  gives an infinity and a text such as \<open>1e-400\<close> gives zero.
\<close>

definition strUnsignedDecimalLiteral :: "string \<Rightarrow> number" where
  "strUnsignedDecimalLiteral s =
     (if take 8 s = ''Infinity'' then PosInf
      else
        let ip = takeWhile isDigit s; r1 = dropWhile isDigit s in
        (case r1 of
           [] \<Rightarrow> if ip = [] then NaN else roundToDouble (real (digitsValue ip))
         | c # r2 \<Rightarrow>
             if c = CHR ''.''
             then
               (let fp = takeWhile isDigit r2; r3 = dropWhile isDigit r2 in
                if ip = [] \<and> fp = [] then NaN
                else roundToDouble (scale10 (exponentPart r3)
                       (real (digitsValue ip) + real (digitsValue fp) / 10 ^ length fp)))
             else if ip = [] then NaN
             else roundToDouble (scale10 (exponentPart r1) (real (digitsValue ip)))))"

definition parseFloat :: "string \<Rightarrow> number" where
  "parseFloat s =
     (case dropWhile isWhiteSpace s of
        [] \<Rightarrow> NaN
      | c # r \<Rightarrow>
          if c = CHR ''+'' then strUnsignedDecimalLiteral r
          else if c = CHR ''-'' then negate (strUnsignedDecimalLiteral r)
          else strUnsignedDecimalLiteral (c # r))"

text \<open>The decimal digits of a natural number.\<close>

fun decimal :: "nat \<Rightarrow> string" where
  "decimal n =
     (if n < 10 then [''0123456789'' ! n]
      else decimal (n div 10) @ [''0123456789'' ! (n mod 10)])"

declare decimal.simps [simp del]

text \<open>
  \<open>x.toFixed(f)\<close> for \<open>f\<close> from 0 to 100. Below ten to the power 21 the result is
  the nearest multiple of ten to the power \<open>- f\<close> of the exact value of the double
  (the larger one on a tie), written with \<open>f\<close> fraction digits. From ten to the
  power 21 on the result is that of \<open>Number::toString\<close>, which is a parameter here.
\<close>

definition toFixed :: "(real \<Rightarrow> string) \<Rightarrow> number \<Rightarrow> nat \<Rightarrow> string" where
  "toFixed numberToString v f =
     (case v of
        NaN \<Rightarrow> ''NaN''
      | PosInf \<Rightarrow> ''Infinity''
      | NegInf \<Rightarrow> ''-Infinity''
      | Fin x0 \<Rightarrow>
          let s = (if x0 < 0 then ''-'' else '''');
              x = (if x0 < 0 then - x0 else x0)
          in if 10 ^ 21 \<le> x then s @ numberToString x
             else
               let n = nat \<lfloor>x * 10 ^ f + 1 / 2\<rfloor>;
                   m = decimal n
               in if f \<noteq> 0
                  then
                    (let m' = (if length m \<le> f
                               then replicate (f + 1 - length m) CHR ''0'' @ m else m);
                         k = length m'
                     in s @ take (k - f) m' @ ''.'' @ drop (k - f) m')
                  else s @ m)"

section \<open>Values read from JSON\<close>

text \<open>
  The body of the answer of the rate API is parsed by \<open>response.json()\<close>, and what
  the code reads from it is whatever the text held: a value of JSON. An object is the
  list of its members in the order of the text. A value that may be \<open>undefined\<close>
  is an optional value.
\<close>

datatype json =
    JNull
  | JBool bool
  | JNum number
  | JStr string
  | JArr "json list"
  | JObj "(string \<times> json) list"

text \<open>
  What can be thrown inside the \<open>try\<close> block of \<open>fetchExchangeRate\<close>: an \<open>Error\<close>
  with its message (the two \<open>throw\<close> statements), the \<open>TypeError\<close> with which
  \<open>fetch\<close> rejects when the network fails and which a property read of \<open>undefined\<close>
  or \<open>null\<close> throws, or the \<open>SyntaxError\<close> with which \<open>response.json()\<close>
  rejects when the body is not JSON.
\<close>

datatype exn = Error string | TypeError | SyntaxError

text \<open>\<open>ToBoolean\<close>, which the test \<open>!rate\<close> applies.\<close>

fun ToBoolean :: "json option \<Rightarrow> bool" where
  "ToBoolean None = False"
| "ToBoolean (Some JNull) = False"
| "ToBoolean (Some (JBool b)) = b"
| "ToBoolean (Some (JNum n)) = truthy n"
| "ToBoolean (Some (JStr s)) = (s \<noteq> [])"
| "ToBoolean (Some (JArr xs)) = True"
| "ToBoolean (Some (JObj kvs)) = True"

text \<open>
  The property read \<open>v[k]\<close>. It throws on \<open>undefined\<close> and \<open>null\<close>. An object
  gives its own property \<open>k\<close>, which is the last member of that name in the text,
  or \<open>undefined\<close>. The keys the program reads are
  \<open>rates\<close> and the currency codes, which are no properties of the prototypes of
  objects, arrays, strings, numbers and booleans, so every other read gives
  \<open>undefined\<close>.
\<close>

fun GetV :: "json option \<Rightarrow> string \<Rightarrow> exn + json option" where
  "GetV None k = Inl TypeError"
| "GetV (Some JNull) k = Inl TypeError"
| "GetV (Some (JObj kvs)) k = Inr (map_of (rev kvs) k)"
| "GetV (Some v) k = Inr None"

text \<open>
  \<open>ToNumber\<close>, which the operator \<open>*\<close> applies to its operands. For a string, an
  array and an object the conversion of ECMA-262 (which can throw, for an object whose
  property \<open>toString\<close> is not a function) is a parameter.
\<close>

fun ToNumber :: "(json \<Rightarrow> exn + number) \<Rightarrow> json \<Rightarrow> exn + number" where
  "ToNumber other (JNum n) = Inr n"
| "ToNumber other JNull = Inr (Fin 0)"
| "ToNumber other (JBool b) = Inr (Fin (if b then 1 else 0))"
| "ToNumber other v = other v"

section \<open>Dates\<close>

text \<open>
  A \<open>Date\<close> is its time value, the milliseconds since the epoch in UTC, here an
  unbounded integer (the range check \<open>TimeClip\<close> is not modelled). The functions on
  time values are those of ECMA-262.
\<close>

definition msPerDay :: int where
  "msPerDay = 86400000"

definition Day :: "int \<Rightarrow> int" where
  "Day t = t div msPerDay"

definition TimeWithinDay :: "int \<Rightarrow> int" where
  "TimeWithinDay t = t mod msPerDay"

definition DaysInYear :: "int \<Rightarrow> int" where
  "DaysInYear y =
     (if y mod 4 \<noteq> 0 then 365 else if y mod 100 \<noteq> 0 then 366
      else if y mod 400 \<noteq> 0 then 365 else 366)"

definition DayFromYear :: "int \<Rightarrow> int" where
  "DayFromYear y =
     365 * (y - 1970) + (y - 1969) div 4 - (y - 1901) div 100 + (y - 1601) div 400"

text \<open>
  The year of a day number: ECMA-262 asks for the largest \<open>y\<close> with
  \<open>DayFromYear y \<le> d\<close>. It is computed from an estimate by the mean length of a
  year, corrected by at most one; \<open>YearFromDay_bounds\<close> and \<open>YearFromDay_largest\<close>
  below show that this is the year asked for.
\<close>

definition YearFromDay :: "int \<Rightarrow> int" where
  "YearFromDay d =
     (let y = 1970 + (d * 10000) div 3652425 in
      if d < DayFromYear y then y - 1
      else if DayFromYear (y + 1) \<le> d then y + 1
      else y)"

definition YearFromTime :: "int \<Rightarrow> int" where
  "YearFromTime t = YearFromDay (Day t)"

definition InLeapYear :: "int \<Rightarrow> int" where
  "InLeapYear t = (if DaysInYear (YearFromTime t) = 366 then 1 else 0)"

definition DayWithinYear :: "int \<Rightarrow> int" where
  "DayWithinYear t = Day t - DayFromYear (YearFromTime t)"

text \<open>The number of days of a year before its month \<open>m\<close> (from 0 to 11).\<close>

definition daysBeforeMonth :: "int \<Rightarrow> int \<Rightarrow> int" where
  "daysBeforeMonth m leap =
     (if m = 0 then 0 else if m = 1 then 31 else if m = 2 then 59 + leap
      else if m = 3 then 90 + leap else if m = 4 then 120 + leap
      else if m = 5 then 151 + leap else if m = 6 then 181 + leap
      else if m = 7 then 212 + leap else if m = 8 then 243 + leap
      else if m = 9 then 273 + leap else if m = 10 then 304 + leap
      else 334 + leap)"

definition MonthFromTime :: "int \<Rightarrow> int" where
  "MonthFromTime t =
     (let d = DayWithinYear t; leap = InLeapYear t in
      if d < 31 then 0 else if d < 59 + leap then 1 else if d < 90 + leap then 2
      else if d < 120 + leap then 3 else if d < 151 + leap then 4
      else if d < 181 + leap then 5 else if d < 212 + leap then 6
      else if d < 243 + leap then 7 else if d < 273 + leap then 8
      else if d < 304 + leap then 9 else if d < 334 + leap then 10 else 11)"

definition DateFromTime :: "int \<Rightarrow> int" where
  "DateFromTime t =
     DayWithinYear t - daysBeforeMonth (MonthFromTime t) (InLeapYear t) + 1"

text \<open>
  \<open>MakeDay\<close>: the day number of the first of the month, plus the date less one; a
  month outside 0 to 11 carries into the year.
\<close>

definition MakeDay :: "int \<Rightarrow> int \<Rightarrow> int \<Rightarrow> int" where
  "MakeDay year month dt =
     (let ym = year + month div 12; mn = month mod 12 in
      DayFromYear ym + daysBeforeMonth mn (if DaysInYear ym = 366 then 1 else 0) + dt - 1)"

definition MakeDate :: "int \<Rightarrow> int \<Rightarrow> int" where
  "MakeDate day time = day * msPerDay + time"

subsection \<open>Local time\<close>

text \<open>
  The methods of \<open>Date\<close> that the component and date-fns call work in the local time
  of the time zone of the platform. A time zone is its function \<open>LocalTZA\<close> of
  ECMA-262: the offset of local time from UTC in milliseconds, at a time value in UTC
  when the flag is true, and at a local time when the flag is false (for a local time
  that a transition skips, the offset before the transition). The one requirement on a
  time zone is that the local time one day after a time, read back as UTC, is later than
  that time; it holds when a transition moves the clock by less than a day.
\<close>

typedef zone =
  "{f :: int \<Rightarrow> bool \<Rightarrow> int. \<forall>t. f (t + f t True + 86400000) False - f t True < 86400000}"
  morphisms LocalTZA Abs_zone
  by (rule exI [of _ "\<lambda>t isUTC. 0"]) simp

setup_lifting type_definition_zone

text \<open>A zone with a fixed offset, and UTC.\<close>

lift_definition fixedOffset :: "int \<Rightarrow> zone" is "\<lambda>c t isUTC. c"
  by simp

definition utc :: zone where
  "utc = fixedOffset 0"

text \<open>
  The Eastern time zone of the United States around its transition to daylight saving
  time in 2024: five hours behind UTC until 10 March 2024, 07:00 UTC, when the local
  clock goes from 02:00 to 03:00, and four hours behind from then on. (The other
  transitions of the zone are left out.)
\<close>

lift_definition eastern2024 :: zone is
  "\<lambda>t isUTC. if isUTC then (if t < 1710054000000 then - 18000000 else - 14400000)
             else (if t < 1710039600000 then - 18000000 else - 14400000)"
  by auto

definition LocalTime :: "zone \<Rightarrow> int \<Rightarrow> int" where
  "LocalTime z t = t + LocalTZA z t True"

definition UTC :: "zone \<Rightarrow> int \<Rightarrow> int" where
  "UTC z t = t - LocalTZA z t False"

text \<open>The methods of \<open>Date\<close> the component and date-fns call.\<close>

definition getDate :: "zone \<Rightarrow> int \<Rightarrow> int" where
  "getDate z t = DateFromTime (LocalTime z t)"

definition getMonth :: "zone \<Rightarrow> int \<Rightarrow> int" where
  "getMonth z t = MonthFromTime (LocalTime z t)"

definition getFullYear :: "zone \<Rightarrow> int \<Rightarrow> int" where
  "getFullYear z t = YearFromTime (LocalTime z t)"

definition setDate :: "zone \<Rightarrow> int \<Rightarrow> int \<Rightarrow> int" where
  "setDate z t dt =
     (let lt = LocalTime z t in
      UTC z (MakeDate (MakeDay (YearFromTime lt) (MonthFromTime lt) dt) (TimeWithinDay lt)))"

definition setMonth :: "zone \<Rightarrow> int \<Rightarrow> int \<Rightarrow> int \<Rightarrow> int" where
  "setMonth z t month dt =
     (let lt = LocalTime z t in
      UTC z (MakeDate (MakeDay (YearFromTime lt) month dt) (TimeWithinDay lt)))"

definition setFullYear :: "zone \<Rightarrow> int \<Rightarrow> int \<Rightarrow> int \<Rightarrow> int \<Rightarrow> int" where
  "setFullYear z t year month dt =
     (let lt = LocalTime z t in
      UTC z (MakeDate (MakeDay year month dt) (TimeWithinDay lt)))"

subsection \<open>The functions of date-fns\<close>

text \<open>
  The library functions imported by the component, after the source of date-fns:
  \<open>addDays\<close> sets the day of the month, \<open>addMonths\<close> goes to the last day of
  the wanted month and from there back to the day of the month of its argument unless
  the wanted month is too short for it, \<open>addYears\<close> adds twelve months for each
  year, and the \<open>sub\<close> functions add the negated amount.
\<close>

definition addDays :: "zone \<Rightarrow> int \<Rightarrow> int \<Rightarrow> int" where
  "addDays z d n = (if n = 0 then d else setDate z d (getDate z d + n))"

definition addMonths :: "zone \<Rightarrow> int \<Rightarrow> int \<Rightarrow> int" where
  "addMonths z d n =
     (if n = 0 then d
      else
        let dayOfMonth = getDate z d;
            endOfDesiredMonth = setMonth z d (getMonth z d + n + 1) 0;
            daysInMonth = getDate z endOfDesiredMonth
        in if dayOfMonth \<ge> daysInMonth then endOfDesiredMonth
           else setFullYear z d (getFullYear z endOfDesiredMonth)
                  (getMonth z endOfDesiredMonth) dayOfMonth)"

definition addYears :: "zone \<Rightarrow> int \<Rightarrow> int \<Rightarrow> int" where
  "addYears z d n = addMonths z d (n * 12)"

definition subDays :: "zone \<Rightarrow> int \<Rightarrow> int \<Rightarrow> int" where
  "subDays z d n = addDays z d (- n)"

definition subMonths :: "zone \<Rightarrow> int \<Rightarrow> int \<Rightarrow> int" where
  "subMonths z d n = addMonths z d (- n)"

definition subYears :: "zone \<Rightarrow> int \<Rightarrow> int \<Rightarrow> int" where
  "subYears z d n = addYears z d (- n)"

text \<open>
  \<open>format(d, "yyyy-MM-dd")\<close>: the year (for a year before 1, one less the year),
  the month counted from 1 and the day of the month, all in local time, padded with
  zeros to 4, 2 and 2 digits.
\<close>

definition addLeadingZeros :: "int \<Rightarrow> nat \<Rightarrow> string" where
  "addLeadingZeros n targetLength =
     (let out = decimal (nat \<bar>n\<bar>) in
      (if n < 0 then ''-'' else '''') @ replicate (targetLength - length out) CHR ''0'' @ out)"

definition format_yyyy_MM_dd :: "zone \<Rightarrow> int \<Rightarrow> string" where
  "format_yyyy_MM_dd z t =
     (let signedYear = getFullYear z t;
          year = (if signedYear > 0 then signedYear else 1 - signedYear)
      in addLeadingZeros year 4 @ ''-'' @ addLeadingZeros (getMonth z t + 1) 2 @ ''-''
         @ addLeadingZeros (getDate z t) 2)"

text \<open>The text of the calendar day with day number \<open>d\<close>.\<close>

definition formatDay :: "int \<Rightarrow> string" where
  "formatDay d = format_yyyy_MM_dd utc (d * msPerDay)"

section \<open>The currency tables\<close>


definition cryptoCurrencies :: "string list" where
  "cryptoCurrencies =
     [''BTC'', ''ETH'', ''USDT'', ''BNB'', ''XRP'', ''ADA'', ''DOT'', ''DOGE'']"

text \<open>The options of the range selector, each a label and a value.\<close>

definition timeRanges :: "(string \<times> string) list" where
  "timeRanges =
     [(''1 Week'', ''1w''), (''1 Month'', ''1m''), (''3 Months'', ''3m''), (''1 Year'', ''1y'')]"

text \<open>
  Simulated crypto rates against USD: the object literal \<open>cryptoBaseRates\<close>, each key
  with the decimal value of its number literal.
\<close>

definition cryptoBaseRates :: "string \<rightharpoonup> real" where
  "cryptoBaseRates = map_of
     [(''BTC'', 45000), (''ETH'', 3000), (''USDT'', 1), (''BNB'', 380),
      (''XRP'', 0.5), (''ADA'', 0.5), (''DOT'', 7), (''DOGE'', 0.08)]"

text \<open>
  The property read \<open>table[key]\<close> where a number is expected: the double that the
  literal denotes. A missing key reads as \<open>undefined\<close>, which is falsy and becomes
  \<open>NaN\<close> under arithmetic; it is modelled as \<open>NaN\<close>. Only own properties are
  modelled.
\<close>

definition rate_at :: "(string \<rightharpoonup> real) \<Rightarrow> string \<Rightarrow> number" where
  "rate_at table k = (case table k of None \<Rightarrow> NaN | Some r \<Rightarrow> roundToDouble r)"

text \<open>The value of \<open>cryptoBaseRates[c]\<close> for a key \<open>c\<close> of the table.\<close>

definition baseRate :: "string \<Rightarrow> real" where
  "baseRate c = realOf (rate_at cryptoBaseRates c)"

section \<open>The rate resolver\<close>

text \<open>\<open>calculateCryptoRate\<close>: the three crypto cases in the order of the source.\<close>

definition calculateCryptoRate :: "string \<Rightarrow> string \<Rightarrow> number" where
  "calculateCryptoRate frm to =
     (if frm \<in> set cryptoCurrencies \<and> to \<in> set cryptoCurrencies
        then num_div (rate_at cryptoBaseRates frm) (rate_at cryptoBaseRates to)
      else if frm \<in> set cryptoCurrencies
        then rate_at cryptoBaseRates frm
      else if to \<in> set cryptoCurrencies
        then num_div (Fin 1) (rate_at cryptoBaseRates to)
      else Fin 0)"

text \<open>
  The answer of the rate API as far as the code reads it: the flag \<open>response.ok\<close> and
  the body, which is the text of a JSON value or is not.
\<close>

datatype body_text = NotJson | Json json

record response =
  ok :: bool
  body :: body_text

datatype fetch_result = Rejected | Resolved response

definition apiUrl :: "string \<Rightarrow> string" where
  "apiUrl frm = ''https://api.exchangerate-api.com/v4/latest/'' @ frm"

text \<open>The messages of the two errors the resolver throws itself.\<close>

definition FetchError :: exn where
  "FetchError = Error ''Failed to fetch exchange rate''"

definition RateUnavailableError :: "string \<Rightarrow> string \<Rightarrow> exn" where
  "RateUnavailableError frm to =
     Error (''No exchange rate available for '' @ frm @ '' to '' @ to)"

text \<open>
  The two statements \<open>data = await response.json()\<close> and
  \<open>rate = data.rates[toCurrency]\<close>: the first throws when the body is not JSON, the
  second when \<open>data\<close> is \<open>null\<close> or \<open>data.rates\<close> is \<open>undefined\<close> or
  \<open>null\<close>.
\<close>

definition ratesEntry :: "response \<Rightarrow> string \<Rightarrow> exn + json option" where
  "ratesEntry resp to =
     (case body resp of
        NotJson \<Rightarrow> Inl SyntaxError
      | Json data \<Rightarrow>
          (case GetV (Some data) ''rates'' of
             Inl e \<Rightarrow> Inl e
           | Inr r \<Rightarrow> GetV r to))"

text \<open>
  A usable rate in the answer: the two statements do not throw and the value read is
  truthy, which is what the test \<open>!rate\<close> lets through.
\<close>

definition usableRate :: "response \<Rightarrow> string \<Rightarrow> bool" where
  "usableRate resp to = (case ratesEntry resp to of Inl e \<Rightarrow> False | Inr v \<Rightarrow> ToBoolean v)"

text \<open>
  The body of the \<open>try\<close> block up to the assignment of \<open>rate\<close>. The network is a
  function from the requested URL to the outcome of \<open>fetch\<close>; the result is the list
  of URLs requested, and either the exception thrown or the rate. The rate is declared
  a number, and is whatever value the body held under the key when that is truthy.
\<close>

definition resolveRate ::
  "(string \<Rightarrow> fetch_result) \<Rightarrow> string \<Rightarrow> string \<Rightarrow> string list \<times> (exn + json)" where
  "resolveRate net frm to =
     (if frm \<in> set cryptoCurrencies \<or> to \<in> set cryptoCurrencies
        then ([], Inr (JNum (calculateCryptoRate frm to)))
      else
        (case net (apiUrl frm) of
           Rejected \<Rightarrow> ([apiUrl frm], Inl TypeError)
         | Resolved resp \<Rightarrow>
             if \<not> ok resp then ([apiUrl frm], Inl FetchError)
             else
               (case ratesEntry resp to of
                  Inl e \<Rightarrow> ([apiUrl frm], Inl e)
                | Inr None \<Rightarrow> ([apiUrl frm], Inl (RateUnavailableError frm to))
                | Inr (Some r) \<Rightarrow>
                    if \<not> ToBoolean (Some r)
                    then ([apiUrl frm], Inl (RateUnavailableError frm to))
                    else ([apiUrl frm], Inr r))))"



section \<open>The component\<close>

text \<open>A point of the historical series.\<close>

record point =
  date :: string
  rate :: number

text \<open>
  The state of \<open>App\<close>: one field for each \<open>useState\<close>. The exchange rate is
  declared a number; it holds what \<open>setExchangeRate\<close> was given, which is a number
  or another truthy value of the body of an answer.
\<close>

record state =
  amount :: string
  fromCurrency :: string
  toCurrency :: string
  exchangeRate :: json
  customRate :: string
  useCustomRate :: bool
  historicalRates :: "point list"
  timeRange :: string
  loading :: bool
  error :: string
  darkMode :: bool

text \<open>The initial values; \<open>dark\<close> is the colour scheme preference of the platform.\<close>

definition initialState :: "bool \<Rightarrow> state" where
  "initialState dark =
     \<lparr>amount = ''1'', fromCurrency = ''USD'', toCurrency = ''EUR'', exchangeRate = JNum (Fin 0),
      customRate = '''', useCustomRate = False, historicalRates = [], timeRange = ''1w'',
      loading = False, error = '''', darkMode = dark\<rparr>"

text \<open>
  What the component reads from outside: the clock (\<open>newDate\<close> is the time value of
  every \<open>new Date()\<close>, so the clock stands still while a series is generated), the
  time zone, the draws of \<open>Math.random()\<close> in their order, each in the interval from
  0 to 1, the network, the \<open>Number::toString\<close> used by \<open>toFixed\<close>, and the
  conversion to a number of the values that are no number, boolean or \<open>null\<close>.
\<close>

record platform =
  newDate :: int
  timeZone :: zone
  mathRandom :: "nat \<Rightarrow> real"
  fetch :: "string \<Rightarrow> fetch_result"
  numberToString :: "real \<Rightarrow> string"
  toNumberOther :: "json \<Rightarrow> exn + number"

text \<open>
  The functions declared inside \<open>App\<close> are closures of one render: they read the
  state of that render, \<open>snap\<close>, and their calls of the setters update the current
  state \<open>st\<close>. One call of a handler is modelled as one step, without interleaving.
\<close>

definition getDateRange :: "platform \<Rightarrow> state \<Rightarrow> int" where
  "getDateRange p snap =
     (let today = newDate p in
      if timeRange snap = ''1m'' then subMonths (timeZone p) today 1
      else if timeRange snap = ''3m'' then subMonths (timeZone p) today 3
      else if timeRange snap = ''1y'' then subYears (timeZone p) today 1
      else subDays (timeZone p) today 7)"

subsection \<open>The loop over the days\<close>

lemma MonthFromTime_range: "0 \<le> MonthFromTime t \<and> MonthFromTime t \<le> 11"
  by (simp add: MonthFromTime_def Let_def)

lemma MakeDay_in_year:
  "0 \<le> m \<Longrightarrow> m \<le> 11 \<Longrightarrow>
   MakeDay y m dt =
     DayFromYear y + daysBeforeMonth m (if DaysInYear y = 366 then 1 else 0) + dt - 1"
  by (simp add: MakeDay_def Let_def div_pos_pos_trivial)

lemma Day_MakeDate: "Day (MakeDate d (TimeWithinDay t)) = d"
  by (simp add: Day_def MakeDate_def TimeWithinDay_def msPerDay_def)

lemma TimeWithinDay_MakeDate: "TimeWithinDay (MakeDate d (TimeWithinDay t)) = TimeWithinDay t"
  by (simp add: MakeDate_def TimeWithinDay_def msPerDay_def)

lemma MakeDate_Day: "MakeDate (Day t) (TimeWithinDay t) = t"
  by (simp add: Day_def MakeDate_def TimeWithinDay_def)

text \<open>
  Setting the day of the month to \<open>n\<close> more than it is moves the local time by
  \<open>n\<close> days.
\<close>

lemma MakeDay_shift:
  "MakeDate (MakeDay (YearFromTime t) (MonthFromTime t) (DateFromTime t + n)) (TimeWithinDay t)
     = t + n * msPerDay"
proof -
  have "MakeDay (YearFromTime t) (MonthFromTime t) (DateFromTime t + n) = Day t + n"
    using MonthFromTime_range [of t]
    by (simp add: MakeDay_in_year DateFromTime_def DayWithinYear_def InLeapYear_def)
  then have "MakeDate (MakeDay (YearFromTime t) (MonthFromTime t) (DateFromTime t + n))
      (TimeWithinDay t) = MakeDate (Day t) (TimeWithinDay t) + n * msPerDay"
    by (simp add: MakeDate_def algebra_simps)
  then show ?thesis by (simp only: MakeDate_Day)
qed

lemma setDate_shift: "setDate z t (getDate z t + n) = UTC z (LocalTime z t + n * msPerDay)"
  by (simp add: setDate_def getDate_def Let_def MakeDay_shift)

text \<open>The day after is later, in every time zone.\<close>

lemma setDate_next_later: "t < setDate z t (getDate z t + 1)"
proof -
  have "LocalTZA z (t + LocalTZA z t True + 86400000) False - LocalTZA z t True < 86400000"
    using LocalTZA [of z] by simp
  then show ?thesis
    by (simp add: setDate_shift UTC_def LocalTime_def msPerDay_def)
qed

text \<open>
  The \<open>while\<close> loop of \<open>fetchHistoricalRates\<close>, with the array \<open>dates\<close> as
  accumulator. It ends, since every round moves \<open>currentDate\<close> on.
\<close>

function collectDates :: "zone \<Rightarrow> int \<Rightarrow> int \<Rightarrow> string list \<Rightarrow> string list" where
  "collectDates z now currentDate dates =
     (if currentDate \<le> now
      then collectDates z now (setDate z currentDate (getDate z currentDate + 1))
             (dates @ [format_yyyy_MM_dd z currentDate])
      else dates)"
  by pat_completeness auto
termination
proof (relation "measure (\<lambda>(z, now, currentDate, dates). nat (now - currentDate + 1))")
  show "wf (measure (\<lambda>(z, now, currentDate, dates). nat (now - currentDate + 1)))"
    by simp
  fix z :: zone and now currentDate :: int and dates :: "string list"
  assume "currentDate \<le> now"
  then show "((z, now, setDate z currentDate (getDate z currentDate + 1),
        dates @ [format_yyyy_MM_dd z currentDate]), (z, now, currentDate, dates))
      \<in> measure (\<lambda>(z, now, currentDate, dates). nat (now - currentDate + 1))"
    using setDate_next_later [of currentDate z] by simp
qed

declare collectDates.simps [simp del]

subsection \<open>The operations\<close>

text \<open>
  \<open>fetchHistoricalRates\<close>. The base rate is the \<open>exchangeRate\<close> of the render the
  closure belongs to; the operator \<open>*\<close> converts it to a number for every date, which
  can throw when it is no number, and then the series is not set. The \<open>k\<close>-th date
  gets the \<open>k\<close>-th draw.
\<close>

definition volatilityOf :: "state \<Rightarrow> number" where
  "volatilityOf snap =
     (if fromCurrency snap \<in> set cryptoCurrencies \<or> toCurrency snap \<in> set cryptoCurrencies
      then roundToDouble 0.15 else roundToDouble 0.05)"

definition fetchHistoricalRates :: "platform \<Rightarrow> state \<Rightarrow> state \<Rightarrow> exn + state" where
  "fetchHistoricalRates p snap st =
     (let startDate = getDateRange p snap;
          dates = collectDates (timeZone p) (newDate p) startDate [];
          baseRate = exchangeRate snap;
          volatility = volatilityOf snap
      in if dates = [] then Inr (st\<lparr>historicalRates := []\<rparr>)
         else
           (case ToNumber (toNumberOther p) baseRate of
              Inl e \<Rightarrow> Inl e
            | Inr b \<Rightarrow>
                Inr (st\<lparr>historicalRates :=
                  map (\<lambda>(k, d).
                        \<lparr>date = d,
                         rate = num_mul b
                           (num_add (Fin 1)
                             (num_sub
                               (num_mul (num_mul (Fin (mathRandom p k)) volatility) (Fin 2))
                               volatility))\<rparr>)
                    (zip [0 ..< length dates] dates)\<rparr>)))"

text \<open>
  \<open>fetchExchangeRate\<close>: whatever is thrown in the \<open>try\<close> block is caught and
  replaced by the one message; \<open>setLoading(false)\<close> runs on both paths.
\<close>

definition fetchExchangeRate :: "platform \<Rightarrow> state \<Rightarrow> state \<Rightarrow> state" where
  "fetchExchangeRate p snap st =
     (let st1 = st\<lparr>loading := True\<rparr>;
          st2 = st1\<lparr>error := ''''\<rparr>;
          st3 =
            (case snd (resolveRate (fetch p) (fromCurrency snap) (toCurrency snap)) of
               Inr r \<Rightarrow>
                 (case fetchHistoricalRates p snap (st2\<lparr>exchangeRate := r\<rparr>) of
                    Inr st' \<Rightarrow> st'
                  | Inl e \<Rightarrow>
                      st2\<lparr>exchangeRate := r,
                          error := ''Failed to fetch exchange rate. Please try again later.''\<rparr>)
             | Inl e \<Rightarrow>
                 st2\<lparr>error := ''Failed to fetch exchange rate. Please try again later.''\<rparr>)
      in st3\<lparr>loading := False\<rparr>)"

definition handleSwapCurrencies :: "state \<Rightarrow> state \<Rightarrow> state" where
  "handleSwapCurrencies snap st =
     (let st1 = st\<lparr>fromCurrency := toCurrency snap\<rparr>
      in st1\<lparr>toCurrency := fromCurrency snap\<rparr>)"

definition effectiveRate :: "state \<Rightarrow> json" where
  "effectiveRate s =
     (if useCustomRate s then JNum (parseFloat (customRate s)) else exchangeRate s)"

text \<open>
  The claim about the effective rate, in the words of the specification: the parsed
  override when the override is enabled and parses as a finite number, and the last
  resolved quote otherwise.
\<close>

definition effectiveRate_spec :: "state \<Rightarrow> json" where
  "effectiveRate_spec s =
     (if useCustomRate s \<and> isFinite (parseFloat (customRate s))
      then JNum (parseFloat (customRate s)) else exchangeRate s)"

subsection \<open>The rendered text\<close>

text \<open>
  The text of the two paragraphs under the inputs, as the JSX writes it. The product
  converts the effective rate to a number; \<open>toFixed\<close> is a method of numbers only,
  and calling it on another value throws.
\<close>

definition conversionLine :: "platform \<Rightarrow> state \<Rightarrow> exn + string" where
  "conversionLine p s =
     (if truthy (parseFloat (amount s))
      then
        (case ToNumber (toNumberOther p) (effectiveRate s) of
           Inl e \<Rightarrow> Inl e
         | Inr r \<Rightarrow>
             Inr (amount s @ '' '' @ fromCurrency s @ '' = ''
                  @ toFixed (numberToString p) (num_mul (parseFloat (amount s)) r) 2
                  @ '' '' @ toCurrency s))
      else Inr ''Please enter a valid amount'')"



subsection \<open>Inputs for the examples\<close>

text \<open>A platform without network, in UTC, for examples.\<close>

definition offline :: platform where
  "offline = \<lparr>newDate = 0, timeZone = utc, mathRandom = (\<lambda>k. 0), fetch = (\<lambda>u. Rejected),
     numberToString = (\<lambda>x. ''''), toNumberOther = (\<lambda>v. Inr NaN)\<rparr>"

text \<open>
  A platform in UTC whose clock stands at noon of 3 March 2024 (day number 19785) and
  whose random source always draws 0; and a render for USD to EUR with a resolved rate
  of 0.9.
\<close>

definition march3 :: platform where
  "march3 = offline\<lparr>newDate := 1709467200000\<rparr>"

definition usdEur :: state where
  "usdEur = (initialState False)\<lparr>exchangeRate := JNum (roundToDouble 0.9)\<rparr>"

text \<open>
  A platform in Eastern time whose clock stands at 17 March 2024, 02:30 local time
  (06:30 UTC), one week after the night of the transition to daylight saving time.
\<close>

definition march17 :: platform where
  "march17 = offline\<lparr>newDate := 1710657000000, timeZone := eastern2024\<rparr>"

section \<open>Properties of rounding\<close>

lemma pow2_powr: "pow2 e = 2 powr (of_int e)"
  by (simp add: pow2_def powr_int)

lemma pow2_pos [simp]: "0 < pow2 e"
  by (simp add: pow2_powr)

lemma pow2_nonneg [simp]: "0 \<le> pow2 e"
  using pow2_pos [of e] by linarith

lemma pow2_neq_0 [simp]: "pow2 e \<noteq> 0"
  using pow2_pos [of e] by linarith

lemma pow2_not_less_0 [simp]: "\<not> pow2 e < 0"
  using pow2_pos [of e] by linarith

lemma pow2_not_le_0 [simp]: "\<not> pow2 e \<le> 0"
  using pow2_pos [of e] by linarith

lemma abs_pow2 [simp]: "\<bar>pow2 e\<bar> = pow2 e"
  by simp

lemma pow2_add: "pow2 (a + b) = pow2 a * pow2 b"
  by (simp add: pow2_powr powr_add)

lemma pow2_mono: "a \<le> b \<Longrightarrow> pow2 a \<le> pow2 b"
  by (simp add: pow2_powr)

lemma pow2_nat: "0 \<le> d \<Longrightarrow> pow2 d = of_int (2 ^ nat d)"
  by (simp add: pow2_def)

lemma pow2_diff: "pow2 a / pow2 b = pow2 (a - b)"
  using pow2_add [of "a - b" b] by simp

lemma pow2_scale: "0 \<le> d \<Longrightarrow> of_int (2 ^ nat d) * pow2 e = pow2 (e + d)"
  by (simp only: pow2_add pow2_nat mult.commute)

lemma pow2_53: "of_int (2 ^ 53) * pow2 (e - 52) = pow2 (e + 1)"
proof -
  have "of_int (2 ^ nat 53) * pow2 (e - 52) = pow2 (e - 52 + 53)" by (rule pow2_scale) simp
  moreover have "e - 52 + 53 = e + 1" by simp
  moreover have "nat 53 = 53" by simp
  ultimately show ?thesis by (simp only:)
qed

lemma pow2_52: "of_int (2 ^ 52) * pow2 (e - 52) = pow2 e"
proof -
  have "of_int (2 ^ nat 52) * pow2 (e - 52) = pow2 (e - 52 + 52)" by (rule pow2_scale) simp
  moreover have "e - 52 + 52 = e" by simp
  moreover have "nat 52 = 52" by simp
  ultimately show ?thesis by (simp only:)
qed

lemma rne_int [simp]: "rne (of_int k) = k"
  by (simp add: rne_def)

lemma rne_mono: assumes "r \<le> s" shows "rne r \<le> rne s"
proof (cases "\<lfloor>r\<rfloor> = \<lfloor>s\<rfloor>")
  case True
  with assms show ?thesis by (auto simp: rne_def Let_def)
next
  case False
  with assms have "\<lfloor>r\<rfloor> < \<lfloor>s\<rfloor>" using floor_mono [OF assms] by simp
  moreover have "rne r \<le> \<lfloor>r\<rfloor> + 1" by (simp add: rne_def Let_def)
  moreover have "\<lfloor>s\<rfloor> \<le> rne s" by (simp add: rne_def Let_def)
  ultimately show ?thesis by simp
qed

lemma rne_le: "r \<le> of_int k \<Longrightarrow> rne r \<le> k"
  using rne_mono [of r "of_int k"] by simp

lemma rne_ge: "of_int k \<le> r \<Longrightarrow> k \<le> rne r"
  using rne_mono [of "of_int k" r] by simp

lemma expo_ge: "- 1022 \<le> expo x"
  by (simp add: expo_def)

lemma abs_less_expo: assumes "x \<noteq> 0" shows "\<bar>x\<bar> < pow2 (expo x + 1)"
proof -
  have "\<bar>x\<bar> < pow2 (\<lfloor>log 2 \<bar>x\<bar>\<rfloor> + 1)"
    using floor_log_eq_powr_iff [of "\<bar>x\<bar>" 2 "\<lfloor>log 2 \<bar>x\<bar>\<rfloor>"] assms
    by (simp add: pow2_powr)
  also have "\<dots> \<le> pow2 (expo x + 1)" by (rule pow2_mono) (simp add: expo_def)
  finally show ?thesis .
qed

lemma expo_unique:
  assumes "pow2 e \<le> \<bar>x\<bar>" and "\<bar>x\<bar> < pow2 (e + 1)"
  shows "expo x = max e (- 1022)"
proof -
  have "0 < \<bar>x\<bar>" using assms(1) pow2_pos [of e] by linarith
  then have "\<lfloor>log 2 \<bar>x\<bar>\<rfloor> = e"
    using floor_log_eq_powr_iff [of "\<bar>x\<bar>" 2 e] assms by (simp add: pow2_powr)
  then show ?thesis by (simp add: expo_def)
qed

lemma expo_less: assumes "x \<noteq> 0" and "\<bar>x\<bar> < pow2 m" and "- 1022 < m" shows "expo x < m"
proof -
  have "\<not> m \<le> \<lfloor>log 2 \<bar>x\<bar>\<rfloor>"
  proof
    assume "m \<le> \<lfloor>log 2 \<bar>x\<bar>\<rfloor>"
    then have "pow2 m \<le> pow2 \<lfloor>log 2 \<bar>x\<bar>\<rfloor>" by (rule pow2_mono)
    also have "\<dots> \<le> \<bar>x\<bar>"
      using floor_log_eq_powr_iff [of "\<bar>x\<bar>" 2 "\<lfloor>log 2 \<bar>x\<bar>\<rfloor>"] assms(1)
      by (simp add: pow2_powr)
    finally show False using assms(2) by simp
  qed
  with assms(3) show ?thesis by (simp add: expo_def)
qed

lemma expo_mono: assumes "x \<noteq> 0" and "\<bar>x\<bar> \<le> \<bar>y\<bar>" shows "expo x \<le> expo y"
proof -
  have "log 2 \<bar>x\<bar> \<le> log 2 \<bar>y\<bar>" using assms by simp
  then have "\<lfloor>log 2 \<bar>x\<bar>\<rfloor> \<le> \<lfloor>log 2 \<bar>y\<bar>\<rfloor>" by (rule floor_mono)
  then show ?thesis by (simp add: expo_def)
qed

lemma mag_minus [simp]: "mag (- x) = mag x"
  by (simp add: mag_def expo_def)

lemma mag_nonneg: "0 \<le> mag x"
proof -
  have "0 \<le> \<bar>x\<bar> / pow2 (expo x - 52)" by simp
  then have "0 \<le> rne (\<bar>x\<bar> / pow2 (expo x - 52))" using rne_ge [of 0] by simp
  then show ?thesis by (simp add: mag_def)
qed

lemma mag_le_binade: assumes "x \<noteq> 0" shows "mag x \<le> pow2 (expo x + 1)"
proof -
  let ?q = "pow2 (expo x - 52)"
  have "\<bar>x\<bar> / ?q \<le> pow2 (expo x + 1) / ?q"
    using abs_less_expo [OF assms] by (simp add: divide_le_cancel)
  also have "\<dots> = of_int (2 ^ 53)" by (simp add: pow2_diff pow2_nat)
  finally have "rne (\<bar>x\<bar> / ?q) \<le> 2 ^ 53" by (rule rne_le)
  then have "of_int (rne (\<bar>x\<bar> / ?q)) * ?q \<le> of_int (2 ^ 53) * ?q"
    by (intro mult_right_mono) (simp_all del: of_int_power of_int_numeral)
  also have "of_int (2 ^ 53) * ?q = pow2 (expo x + 1)" by (rule pow2_53)
  finally show ?thesis by (simp only: mag_def)
qed

lemma mag_ge_binade: assumes "pow2 (expo x) \<le> \<bar>x\<bar>" shows "pow2 (expo x) \<le> mag x"
proof -
  let ?q = "pow2 (expo x - 52)"
  have "of_int (2 ^ 52) = pow2 (expo x) / ?q" by (simp add: pow2_diff pow2_nat)
  also have "\<dots> \<le> \<bar>x\<bar> / ?q" using assms by (simp add: divide_le_cancel)
  finally have "2 ^ 52 \<le> rne (\<bar>x\<bar> / ?q)" by (rule rne_ge)
  then have "of_int (2 ^ 52) * ?q \<le> of_int (rne (\<bar>x\<bar> / ?q)) * ?q"
    by (intro mult_right_mono) (simp_all del: of_int_power of_int_numeral)
  moreover have "of_int (2 ^ 52) * ?q = pow2 (expo x)" by (rule pow2_52)
  ultimately show ?thesis by (simp only: mag_def)
qed

lemma mag_mono: assumes "x \<noteq> 0" and "\<bar>x\<bar> \<le> \<bar>y\<bar>" shows "mag x \<le> mag y"
proof (cases "expo x = expo y")
  case True
  have "\<bar>x\<bar> / pow2 (expo y - 52) \<le> \<bar>y\<bar> / pow2 (expo y - 52)"
    using assms(2) by (simp add: divide_le_cancel)
  then have "rne (\<bar>x\<bar> / pow2 (expo y - 52)) \<le> rne (\<bar>y\<bar> / pow2 (expo y - 52))"
    by (rule rne_mono)
  then show ?thesis by (simp add: mag_def True)
next
  case False
  with expo_mono [OF assms] have lt: "expo x + 1 \<le> expo y" by simp
  then have "\<lfloor>log 2 \<bar>y\<bar>\<rfloor> = expo y" using expo_ge [of x] by (simp add: expo_def max_def split: if_splits)
  moreover have "y \<noteq> 0" using assms by auto
  ultimately have "pow2 (expo y) \<le> \<bar>y\<bar>"
    using floor_log_eq_powr_iff [of "\<bar>y\<bar>" 2 "expo y"] by (simp add: pow2_powr)
  then have "pow2 (expo y) \<le> mag y" by (rule mag_ge_binade)
  moreover have "mag x \<le> pow2 (expo x + 1)" by (rule mag_le_binade [OF assms(1)])
  moreover have "pow2 (expo x + 1) \<le> pow2 (expo y)" by (rule pow2_mono [OF lt])
  ultimately show ?thesis by linarith
qed

lemma mag_exact:
  assumes x: "x = of_int k * pow2 j" and k: "\<bar>k\<bar> < 2 ^ 53" and j: "- 1074 \<le> j" and nz: "x \<noteq> 0"
  shows "mag x = \<bar>x\<bar>"
proof -
  have "\<bar>x\<bar> = of_int \<bar>k\<bar> * pow2 j" by (simp add: x abs_mult)
  have "of_int \<bar>k\<bar> < (of_int (2 ^ 53) :: real)" using k by (simp only: of_int_less_iff)
  then have "\<bar>x\<bar> < of_int (2 ^ 53) * pow2 j"
    unfolding \<open>\<bar>x\<bar> = of_int \<bar>k\<bar> * pow2 j\<close> by (intro mult_strict_right_mono) simp_all
  also have "of_int (2 ^ 53) * pow2 j = pow2 (j + 53)"
    using pow2_scale [of 53 j] by simp
  finally have "expo x < j + 53" using nz j by (intro expo_less) simp_all
  then have d: "0 \<le> j - (expo x - 52)" by simp
  let ?q = "pow2 (expo x - 52)"
  have "\<bar>x\<bar> / ?q = of_int \<bar>k\<bar> * (pow2 j / ?q)"
    by (simp add: \<open>\<bar>x\<bar> = of_int \<bar>k\<bar> * pow2 j\<close>)
  also have "\<dots> = of_int (\<bar>k\<bar> * 2 ^ nat (j - (expo x - 52)))"
    by (simp only: pow2_diff pow2_nat [OF d] of_int_mult)
  finally have q: "\<bar>x\<bar> / ?q = of_int (\<bar>k\<bar> * 2 ^ nat (j - (expo x - 52)))" .
  have "mag x = \<bar>x\<bar> / ?q * ?q" unfolding mag_def q by (simp only: rne_int)
  then show ?thesis by simp
qed

lemma roundToDouble_exact: "isDouble y \<Longrightarrow> roundToDouble y = Fin y"
  unfolding isDouble_def
proof (elim exE conjE)
  fix k j assume y: "y = of_int k * pow2 j" and k: "\<bar>k\<bar> < 2 ^ 53" and j: "- 1074 \<le> j"
    and b: "\<bar>y\<bar> < pow2 1024"
  show "roundToDouble y = Fin y"
  proof (cases "y = 0")
    case True then show ?thesis by (simp add: roundToDouble_def)
  next
    case False
    from mag_exact [OF y k j False] b False show ?thesis
      by (simp add: roundToDouble_def)
  qed
qed

lemma mag_isDouble: assumes "x \<noteq> 0" and "mag x < pow2 1024" shows "isDouble (mag x)"
proof -
  let ?q = "pow2 (expo x - 52)" and ?n = "rne (\<bar>x\<bar> / pow2 (expo x - 52))"
  have n0: "0 \<le> ?n" using rne_ge [of 0 "\<bar>x\<bar> / ?q"] by simp
  have "\<bar>x\<bar> / ?q \<le> pow2 (expo x + 1) / ?q"
    using abs_less_expo [OF assms(1)] by (simp add: divide_le_cancel)
  also have "\<dots> = of_int (2 ^ 53)" by (simp add: pow2_diff pow2_nat)
  finally have n53: "?n \<le> 2 ^ 53" by (rule rne_le)
  have b: "\<bar>mag x\<bar> < pow2 1024" using assms(2) mag_nonneg [of x] by simp
  show ?thesis
  proof (cases "?n = 2 ^ 53")
    case True
    have "mag x = of_int (2 ^ 53) * ?q" unfolding mag_def True ..
    also have "\<dots> = of_int 1 * pow2 (expo x + 1)" by (simp only: pow2_53 of_int_1 mult_1)
    finally have "mag x = of_int 1 * pow2 (expo x + 1)" .
    moreover have "- 1074 \<le> expo x + 1" using expo_ge [of x] by simp
    ultimately show ?thesis unfolding isDouble_def using b
      by (intro exI [of _ 1] exI [of _ "expo x + 1"]) simp
  next
    case False
    with n53 n0 have "\<bar>?n\<bar> < 2 ^ 53" by simp
    moreover have "- 1074 \<le> expo x - 52" using expo_ge [of x] by simp
    moreover have "mag x = of_int ?n * ?q" by (simp add: mag_def)
    ultimately show ?thesis unfolding isDouble_def using b
      by (intro exI [of _ ?n] exI [of _ "expo x - 52"]) simp
  qed
qed

lemma isDouble_0 [simp]: "isDouble 0"
  unfolding isDouble_def by (intro exI [of _ 0]) simp

lemma isDouble_minus: "isDouble y \<Longrightarrow> isDouble (- y)"
  unfolding isDouble_def
  by (elim exE conjE, rule_tac x = "- k" in exI, rule_tac x = j in exI) simp

lemma isDouble_twice: "isDouble y \<Longrightarrow> \<bar>y * 2\<bar> < pow2 1024 \<Longrightarrow> isDouble (y * 2)"
  unfolding isDouble_def
proof (elim exE conjE)
  fix k j assume y: "y = of_int k * pow2 j" and k: "\<bar>k\<bar> < 2 ^ 53" and j: "- 1074 \<le> j"
    and b: "\<bar>y * 2\<bar> < pow2 1024"
  have "y * 2 = of_int k * pow2 (j + 1)" using pow2_add [of j 1] by (simp add: y pow2_def [of 1])
  with k j b show "\<exists>k j. y * 2 = of_int k * pow2 j \<and> \<bar>k\<bar> < 2 ^ 53 \<and> - 1074 \<le> j \<and> \<bar>y * 2\<bar> < pow2 1024"
    by (intro exI [of _ k] exI [of _ "j + 1"]) simp
qed

lemma roundToDouble_isDouble: assumes "roundToDouble x = Fin y" shows "isDouble y"
proof (cases "x = 0")
  case True with assms show ?thesis by (simp add: roundToDouble_def)
next
  case False
  with assms have m: "mag x < pow2 1024" and y: "y = (if 0 < x then mag x else - mag x)"
    by (auto simp: roundToDouble_def inf_of_def split: if_splits)
  from mag_isDouble [OF False m] show ?thesis unfolding y by (simp add: isDouble_minus)
qed

lemma roundToDouble_not_NaN [simp]: "roundToDouble x \<noteq> NaN"
  by (simp add: roundToDouble_def inf_of_def)

lemma roundToDouble_minus: "roundToDouble (- x) = (case roundToDouble x of Fin y \<Rightarrow> Fin (- y) | PosInf \<Rightarrow> NegInf | NegInf \<Rightarrow> PosInf | NaN \<Rightarrow> NaN)"
  by (simp add: roundToDouble_def inf_of_def)

lemma roundToDouble_mono: assumes "x \<le> y" shows "num_le (roundToDouble x) (roundToDouble y)"
proof -
  consider "x = 0" "y = 0" | "x = 0" "0 < y" | "x < 0" "y = 0" | "x < 0" "0 < y"
    | "0 < x" "0 < y" | "x < 0" "y < 0"
    using assms by linarith
  then show ?thesis
  proof cases
    case 5
    then have "mag x \<le> mag y" using assms by (intro mag_mono) simp_all
    with 5 show ?thesis by (simp add: roundToDouble_def inf_of_def)
  next
    case 6
    then have "mag y \<le> mag x" using assms by (intro mag_mono) simp_all
    with 6 show ?thesis by (simp add: roundToDouble_def inf_of_def)
  qed (insert mag_nonneg [of x] mag_nonneg [of y], simp_all add: roundToDouble_def inf_of_def)
qed

lemma roundToDouble_between:
  assumes "lo \<le> x" and "x \<le> hi" and "roundToDouble lo = Fin a" and "roundToDouble hi = Fin b"
  shows "\<exists>y. roundToDouble x = Fin y \<and> a \<le> y \<and> y \<le> b"
  using roundToDouble_mono [OF assms(1)] roundToDouble_mono [OF assms(2)] assms(3,4)
  by (cases "roundToDouble x") simp_all

lemma roundToDouble_eval:
  assumes "pow2 e \<le> \<bar>x\<bar>" and "\<bar>x\<bar> < pow2 (e + 1)" and "- 1022 \<le> e" and "e < 1023"
  shows "roundToDouble x = Fin ((if 0 < x then 1 else - 1) * of_int (rne (\<bar>x\<bar> / pow2 (e - 52))) * pow2 (e - 52))"
proof -
  have e: "expo x = e" using expo_unique [OF assms(1,2)] assms(3) by simp
  have nz: "x \<noteq> 0" using assms(1) pow2_pos [of e] by auto
  have "mag x \<le> pow2 (e + 1)" using mag_le_binade [OF nz] by (simp add: e)
  also have "\<dots> \<le> pow2 1023" using assms(4) by (intro pow2_mono) simp
  also have "\<dots> < pow2 1024" by (simp add: pow2_def)
  finally have "mag x < pow2 1024" .
  with nz show ?thesis by (simp add: roundToDouble_def mag_def e)
qed

lemma roundToDouble_int: "\<bar>k\<bar> < 2 ^ 53 \<Longrightarrow> roundToDouble (of_int k) = Fin (of_int k)"
proof (rule roundToDouble_exact)
  assume k: "\<bar>k\<bar> < 2 ^ 53"
  then have "\<bar>of_int k :: real\<bar> < of_int (2 ^ 53)" by (simp only: of_int_abs [symmetric] of_int_less_iff)
  also have "\<dots> < pow2 1024" by (simp add: pow2_def)
  finally show "isDouble (of_int k)" unfolding isDouble_def using k
    by (intro exI [of _ k] exI [of _ 0]) (simp add: pow2_def)
qed

lemma roundToDouble_numeral:
  "numeral w < (2 :: int) ^ 53 \<Longrightarrow> roundToDouble (numeral w) = Fin (numeral w)"
  using roundToDouble_int [of "numeral w"] by simp

lemma roundToDouble_1: "roundToDouble 1 = Fin 1"
  using roundToDouble_int [of 1] by simp

text \<open>Below the least normal number the doubles are the multiples of \<open>pow2 (- 1074)\<close>.\<close>

lemma roundToDouble_subnormal:
  assumes "x \<noteq> 0" and "\<bar>x\<bar> < pow2 (- 1022)"
  shows "roundToDouble x =
    Fin ((if 0 < x then 1 else - 1) * of_int (rne (\<bar>x\<bar> / pow2 (- 1074))) * pow2 (- 1074))"
proof -
  have "expo x < - 1021" using assms by (intro expo_less) (simp_all add: pow2_mono [THEN order_trans, of "- 1022" "- 1021"] less_le_trans)
  with expo_ge [of x] have e: "expo x = - 1022" by simp
  have "mag x \<le> pow2 (- 1021)" using mag_le_binade [OF assms(1)] by (simp add: e)
  also have "\<dots> < pow2 1024" by (simp add: pow2_def)
  finally have "mag x < pow2 1024" .
  with assms(1) show ?thesis by (simp add: roundToDouble_def mag_def e)
qed

text \<open>From two to the power 1024 on the result is an infinity.\<close>

lemma roundToDouble_overflow:
  assumes "pow2 1024 \<le> \<bar>x\<bar>"
  shows "roundToDouble x = inf_of (0 < x)"
proof -
  have nz: "x \<noteq> 0" using assms pow2_pos [of 1024] by auto
  have "expo (pow2 1024) = max 1024 (- 1022)"
    by (rule expo_unique) (simp_all add: pow2_def)
  moreover have "expo (pow2 1024) \<le> expo x"
    using assms by (intro expo_mono) simp_all
  ultimately have e: "1024 \<le> expo x" by simp
  then have "\<lfloor>log 2 \<bar>x\<bar>\<rfloor> = expo x" by (simp add: expo_def max_def split: if_splits)
  then have "pow2 (expo x) \<le> \<bar>x\<bar>"
    using floor_log_eq_powr_iff [of "\<bar>x\<bar>" 2 "expo x"] nz by (simp add: pow2_powr)
  then have "pow2 (expo x) \<le> mag x" by (rule mag_ge_binade)
  moreover have "pow2 1024 \<le> pow2 (expo x)" by (rule pow2_mono [OF e])
  ultimately have "pow2 1024 \<le> mag x" by linarith
  with nz show ?thesis by (simp add: roundToDouble_def)
qed

text \<open>Some doubles: the literals of the source and of the examples.\<close>

lemma roundToDouble_half: "roundToDouble (1 / 2) = Fin (1 / 2)"
  using roundToDouble_eval [of "- 1" "1 / 2"] by (simp add: pow2_def rne_def Let_def)

lemma roundToDouble_0_08:
  "roundToDouble (2 / 25) = Fin (5764607523034235 / 72057594037927936)"
  using roundToDouble_eval [of "- 4" "2 / 25"] by (simp add: pow2_def rne_def Let_def)

lemma roundToDouble_0_9:
  "roundToDouble (9 / 10) = Fin (8106479329266893 / 9007199254740992)"
  using roundToDouble_eval [of "- 1" "9 / 10"] by (simp add: pow2_def rne_def Let_def)

lemma roundToDouble_0_05:
  "roundToDouble (1 / 20) = Fin (3602879701896397 / 72057594037927936)"
  using roundToDouble_eval [of "- 5" "1 / 20"] by (simp add: pow2_def rne_def Let_def)

lemma roundToDouble_0_15:
  "roundToDouble (3 / 20) = Fin (5404319552844595 / 36028797018963968)"
  using roundToDouble_eval [of "- 3" "3 / 20"] by (simp add: pow2_def rne_def Let_def)

lemma roundToDouble_1_25: "roundToDouble (5 / 4) = Fin (5 / 4)"
  using roundToDouble_eval [of 0 "5 / 4"] by (simp add: pow2_def rne_def Let_def)

section \<open>Properties of the rate resolver\<close>

lemma crypto_mem:
  "c \<in> set cryptoCurrencies \<longleftrightarrow>
     c = ''BTC'' \<or> c = ''ETH'' \<or> c = ''USDT'' \<or> c = ''BNB'' \<or>
     c = ''XRP'' \<or> c = ''ADA'' \<or> c = ''DOT'' \<or> c = ''DOGE''"
  by (simp add: cryptoCurrencies_def)

lemma rate_BTC: "cryptoBaseRates ''BTC'' = Some 45000"
  by (simp add: cryptoBaseRates_def)

lemma rate_ETH: "cryptoBaseRates ''ETH'' = Some 3000"
  by (simp add: cryptoBaseRates_def)

lemma rate_USDT: "cryptoBaseRates ''USDT'' = Some 1"
  by (simp add: cryptoBaseRates_def)

lemma rate_BNB: "cryptoBaseRates ''BNB'' = Some 380"
  by (simp add: cryptoBaseRates_def)

lemma rate_XRP: "cryptoBaseRates ''XRP'' = Some (1 / 2)"
  by (simp add: cryptoBaseRates_def)

lemma rate_ADA: "cryptoBaseRates ''ADA'' = Some (1 / 2)"
  by (simp add: cryptoBaseRates_def)

lemma rate_DOT: "cryptoBaseRates ''DOT'' = Some 7"
  by (simp add: cryptoBaseRates_def)

lemma rate_DOGE: "cryptoBaseRates ''DOGE'' = Some (2 / 25)"
  by (simp add: cryptoBaseRates_def)

lemmas crypto_rates =
  rate_BTC rate_ETH rate_USDT rate_BNB rate_XRP rate_ADA rate_DOT rate_DOGE

lemmas literal_doubles =
  roundToDouble_numeral roundToDouble_1 roundToDouble_half roundToDouble_0_08

text \<open>The doubles of the table.\<close>

lemma baseRate_values:
  "baseRate ''BTC'' = 45000" "baseRate ''ETH'' = 3000" "baseRate ''USDT'' = 1"
  "baseRate ''BNB'' = 380" "baseRate ''XRP'' = 1 / 2" "baseRate ''ADA'' = 1 / 2"
  "baseRate ''DOT'' = 7" "baseRate ''DOGE'' = 5764607523034235 / 72057594037927936"
  by (simp_all add: baseRate_def rate_at_def crypto_rates literal_doubles)

text \<open>
  Every symbol of the crypto list is a key of the table, and its literal denotes a
  positive double.
\<close>

lemma crypto_rate_pos:
  assumes "c \<in> set cryptoCurrencies"
  shows "cryptoBaseRates c \<noteq> None \<and> rate_at cryptoBaseRates c = Fin (baseRate c)
    \<and> roundToDouble (the (cryptoBaseRates c)) = Fin (baseRate c) \<and> 0 < baseRate c"
proof -
  from assms have "c = ''BTC'' \<or> c = ''ETH'' \<or> c = ''USDT'' \<or> c = ''BNB'' \<or>
     c = ''XRP'' \<or> c = ''ADA'' \<or> c = ''DOT'' \<or> c = ''DOGE''"
    by (simp only: crypto_mem)
  then show ?thesis
    by (elim disjE) (simp_all add: baseRate_def rate_at_def crypto_rates literal_doubles)
qed

lemma crypto_count: "length cryptoCurrencies = 8 \<and> distinct cryptoCurrencies"
  by (simp add: cryptoCurrencies_def)

text \<open>What the generation of the series leaves of the state it starts from.\<close>

lemma fetchHistoricalRates_frame:
  assumes "fetchHistoricalRates p snap st = Inr st'"
  shows "exchangeRate st' = exchangeRate st" and "fromCurrency st' = fromCurrency st"
    and "toCurrency st' = toCurrency st" and "error st' = error st"
    and "loading st' = loading st"
  using assms
  by (auto simp: fetchHistoricalRates_def Let_def split: if_splits sum.splits)

text \<open>The rate the resolver returns is the exchange rate after the cycle.\<close>

lemma resolved_rate_stored:
  assumes "resolveRate (fetch p) (fromCurrency snap) (toCurrency snap) = (reqs, Inr r)"
  shows "exchangeRate (fetchExchangeRate p snap st) = r"
proof (cases "fetchHistoricalRates p snap (st\<lparr>loading := True, error := '''', exchangeRate := r\<rparr>)")
  case (Inl e)
  then show ?thesis by (simp add: fetchExchangeRate_def assms Let_def)
next
  case (Inr st')
  from fetchHistoricalRates_frame(1) [OF Inr] Inr show ?thesis
    by (simp add: fetchExchangeRate_def assms Let_def)
qed

text \<open>
  Claim C1. For a pair of two symbols of the crypto list, which has 8 elements, the
  resolver requests nothing and returns the quotient of the two table entries, that is
  the double nearest to the quotient of the two doubles, which is what the operator
  \<open>/\<close> gives; the cycle stores it as the exchange rate. For BTC to ETH it is 15, and
  for a crypto symbol against itself it is 1.
\<close>

theorem crypto_pair_rate:
  "(frm \<in> set cryptoCurrencies \<and> to \<in> set cryptoCurrencies \<longrightarrow>
      cryptoBaseRates frm \<noteq> None \<and> cryptoBaseRates to \<noteq> None \<and>
      roundToDouble (the (cryptoBaseRates frm)) = Fin (baseRate frm) \<and>
      roundToDouble (the (cryptoBaseRates to)) = Fin (baseRate to) \<and> 0 < baseRate frm \<and> 0 < baseRate to \<and>
      resolveRate net frm to = ([], Inr (JNum (roundToDouble (baseRate frm / baseRate to)))))
   \<and> (fromCurrency snap \<in> set cryptoCurrencies \<and> toCurrency snap \<in> set cryptoCurrencies \<longrightarrow>
      exchangeRate (fetchExchangeRate p snap st) =
        JNum (roundToDouble (baseRate (fromCurrency snap) / baseRate (toCurrency snap))))
   \<and> resolveRate net ''BTC'' ''ETH'' = ([], Inr (JNum (Fin 15)))
   \<and> (c \<in> set cryptoCurrencies \<longrightarrow> resolveRate net c c = ([], Inr (JNum (Fin 1))))
   \<and> length cryptoCurrencies = 8 \<and> distinct cryptoCurrencies"
proof -
  have pair: "cryptoBaseRates a \<noteq> None \<and> cryptoBaseRates b \<noteq> None \<and>
      roundToDouble (the (cryptoBaseRates a)) = Fin (baseRate a) \<and>
      roundToDouble (the (cryptoBaseRates b)) = Fin (baseRate b) \<and> 0 < baseRate a \<and> 0 < baseRate b \<and>
      resolveRate n a b = ([], Inr (JNum (roundToDouble (baseRate a / baseRate b))))"
    if h: "a \<in> set cryptoCurrencies \<and> b \<in> set cryptoCurrencies" for n a b
    using h crypto_rate_pos [of a] crypto_rate_pos [of b]
    by (simp add: resolveRate_def calculateCryptoRate_def)
  have btc: "resolveRate net ''BTC'' ''ETH'' = ([], Inr (JNum (Fin 15)))"
    using pair [of "''BTC''" "''ETH''" net]
    by (simp add: crypto_mem baseRate_values literal_doubles)
  have same: "resolveRate net c c = ([], Inr (JNum (Fin 1)))" if h: "c \<in> set cryptoCurrencies"
    using pair [of c c net] h by (simp add: roundToDouble_1)
  have stored: "exchangeRate (fetchExchangeRate p snap st) =
        JNum (roundToDouble (baseRate (fromCurrency snap) / baseRate (toCurrency snap)))"
    if h: "fromCurrency snap \<in> set cryptoCurrencies \<and> toCurrency snap \<in> set cryptoCurrencies"
    using pair [OF h, of "fetch p"] by (intro resolved_rate_stored) simp
  show ?thesis
    using pair [of frm to net] btc same stored crypto_count by blast
qed

theorem crypto_pair_rate_witness:
  "(''DOT'' \<in> set cryptoCurrencies \<and> ''XRP'' \<in> set cryptoCurrencies)
   \<and> resolveRate (\<lambda>u. Rejected) ''DOT'' ''XRP'' = ([], Inr (JNum (Fin 14)))
   \<and> resolveRate (\<lambda>u. Rejected) ''DOGE'' ''DOGE'' = ([], Inr (JNum (Fin 1)))
   \<and> exchangeRate (fetchExchangeRate offline
        ((initialState False)\<lparr>fromCurrency := ''DOT'', toCurrency := ''XRP''\<rparr>)
        (initialState False)) = JNum (Fin 14)"
  using crypto_pair_rate [of "''DOT''" "''XRP''" "\<lambda>u. Rejected"
      "(initialState False)\<lparr>fromCurrency := ''DOT'', toCurrency := ''XRP''\<rparr>"
      offline "initialState False" "''DOGE''"]
  by (simp add: crypto_mem baseRate_values literal_doubles)

text \<open>
  Claim C2. When exactly one leg is a crypto symbol the resolver requests nothing; the
  rate is the table entry of the source symbol when the source is crypto, and the
  reciprocal of the table entry of the target symbol (the double nearest to it) when
  the target is crypto. The cycle stores it as the exchange rate.
\<close>

theorem mixed_pair_rate:
  "(frm \<in> set cryptoCurrencies \<and> to \<notin> set cryptoCurrencies \<longrightarrow>
      cryptoBaseRates frm \<noteq> None \<and> roundToDouble (the (cryptoBaseRates frm)) = Fin (baseRate frm) \<and>
      resolveRate net frm to = ([], Inr (JNum (Fin (baseRate frm)))))
   \<and> (frm \<notin> set cryptoCurrencies \<and> to \<in> set cryptoCurrencies \<longrightarrow>
      cryptoBaseRates to \<noteq> None \<and> roundToDouble (the (cryptoBaseRates to)) = Fin (baseRate to) \<and>
      0 < baseRate to \<and>
      resolveRate net frm to = ([], Inr (JNum (roundToDouble (1 / baseRate to)))))
   \<and> (fromCurrency snap \<in> set cryptoCurrencies \<and> toCurrency snap \<notin> set cryptoCurrencies \<longrightarrow>
      exchangeRate (fetchExchangeRate p snap st) = JNum (Fin (baseRate (fromCurrency snap))))
   \<and> (fromCurrency snap \<notin> set cryptoCurrencies \<and> toCurrency snap \<in> set cryptoCurrencies \<longrightarrow>
      exchangeRate (fetchExchangeRate p snap st) =
        JNum (roundToDouble (1 / baseRate (toCurrency snap))))"
proof -
  have src: "cryptoBaseRates a \<noteq> None \<and> roundToDouble (the (cryptoBaseRates a)) = Fin (baseRate a) \<and>
      resolveRate n a b = ([], Inr (JNum (Fin (baseRate a))))"
    if h: "a \<in> set cryptoCurrencies \<and> b \<notin> set cryptoCurrencies" for n a b
    using h crypto_rate_pos [of a] by (simp add: resolveRate_def calculateCryptoRate_def)
  have dst: "cryptoBaseRates b \<noteq> None \<and> roundToDouble (the (cryptoBaseRates b)) = Fin (baseRate b) \<and>
      0 < baseRate b \<and>
      resolveRate n a b = ([], Inr (JNum (roundToDouble (1 / baseRate b))))"
    if h: "a \<notin> set cryptoCurrencies \<and> b \<in> set cryptoCurrencies" for n a b
    using h crypto_rate_pos [of b] by (simp add: resolveRate_def calculateCryptoRate_def)
  have s1: "exchangeRate (fetchExchangeRate p snap st) = JNum (Fin (baseRate (fromCurrency snap)))"
    if h: "fromCurrency snap \<in> set cryptoCurrencies \<and> toCurrency snap \<notin> set cryptoCurrencies"
    using src [OF h, of "fetch p"] by (intro resolved_rate_stored) simp
  have s2: "exchangeRate (fetchExchangeRate p snap st) =
        JNum (roundToDouble (1 / baseRate (toCurrency snap)))"
    if h: "fromCurrency snap \<notin> set cryptoCurrencies \<and> toCurrency snap \<in> set cryptoCurrencies"
    using dst [OF h, of "fetch p"] by (intro resolved_rate_stored) simp
  show ?thesis
    using src [of frm to net] dst [of frm to net] s1 s2 by blast
qed

theorem mixed_pair_rate_witness:
  "(''BNB'' \<in> set cryptoCurrencies \<and> ''USD'' \<notin> set cryptoCurrencies)
   \<and> resolveRate (\<lambda>u. Rejected) ''BNB'' ''USD'' = ([], Inr (JNum (Fin 380)))
   \<and> resolveRate (\<lambda>u. Rejected) ''USD'' ''BNB'' = ([], Inr (JNum (roundToDouble (1 / 380))))
   \<and> exchangeRate (fetchExchangeRate offline
        ((initialState False)\<lparr>toCurrency := ''BNB''\<rparr>) (initialState False))
       = JNum (roundToDouble (1 / 380))"
  using mixed_pair_rate [of "''BNB''" "''USD''" "\<lambda>u. Rejected"
      "(initialState False)\<lparr>toCurrency := ''BNB''\<rparr>" offline "initialState False"]
    mixed_pair_rate [of "''USD''" "''BNB''" "\<lambda>u. Rejected"
      "(initialState False)\<lparr>toCurrency := ''BNB''\<rparr>" offline "initialState False"]
  by (simp add: crypto_mem baseRate_values initialState_def)






lemma ToBoolean_Some: "ToBoolean v \<Longrightarrow> \<exists>y. v = Some y"
  by (cases v) simp_all

text \<open>The remote branch, for any two symbols outside the crypto list.\<close>

lemma remote_resolution:
  assumes "frm \<notin> set cryptoCurrencies" and "to \<notin> set cryptoCurrencies"
  shows "fst (resolveRate net frm to) = [apiUrl frm]"
    and "net (apiUrl frm) = Rejected \<Longrightarrow> snd (resolveRate net frm to) = Inl TypeError"
    and "net (apiUrl frm) = Resolved resp \<Longrightarrow> \<not> ok resp \<Longrightarrow>
           snd (resolveRate net frm to) = Inl FetchError"
    and "net (apiUrl frm) = Resolved resp \<Longrightarrow> ok resp \<Longrightarrow> ratesEntry resp to = Inl e \<Longrightarrow>
           snd (resolveRate net frm to) = Inl e"
    and "net (apiUrl frm) = Resolved resp \<Longrightarrow> ok resp \<Longrightarrow> ratesEntry resp to = Inr v \<Longrightarrow>
           \<not> ToBoolean v \<Longrightarrow> snd (resolveRate net frm to) = Inl (RateUnavailableError frm to)"
    and "net (apiUrl frm) = Resolved resp \<Longrightarrow> ok resp \<Longrightarrow> ratesEntry resp to = Inr v \<Longrightarrow>
           ToBoolean v \<Longrightarrow> v \<noteq> None \<and> snd (resolveRate net frm to) = Inr (the v)"
  using assms
  by (auto simp: resolveRate_def dest: ToBoolean_Some
      split: fetch_result.splits option.splits sum.splits)




section \<open>Properties of the handlers\<close>

lemmas parseFloat_defs =
  parseFloat_def strUnsignedDecimalLiteral_def exponentPart_def signedInteger_def
  scale10_def digitsValue_def digitValue_def isDigit_def isWhiteSpace_def Let_def

lemma parseFloat_empty: "parseFloat '''' = NaN"
  by (simp add: parseFloat_defs)

lemma parseFloat_abc: "parseFloat ''abc'' = NaN"
  by (simp add: parseFloat_defs)

lemma parseFloat_0: "parseFloat ''0'' = Fin 0"
  by (simp add: parseFloat_defs roundToDouble_def)



lemma parseFloat_1_25: "parseFloat ''1.25'' = Fin (5 / 4)"
  by (simp add: parseFloat_defs roundToDouble_1_25)

text \<open>
  Claim C4 fails as stated: with the override enabled and an empty override field the
  effective rate is \<open>NaN\<close>, not the resolved quote.
\<close>

theorem effectiveRate_counterexample:
  "effectiveRate
       ((initialState False)\<lparr>exchangeRate := JNum (roundToDouble 0.9), useCustomRate := True\<rparr>)
     = JNum NaN
   \<and> effectiveRate_spec
       ((initialState False)\<lparr>exchangeRate := JNum (roundToDouble 0.9), useCustomRate := True\<rparr>)
     = JNum (Fin (8106479329266893 / 9007199254740992))"
  by (simp add: effectiveRate_def effectiveRate_spec_def initialState_def parseFloat_empty
      roundToDouble_0_9)

text \<open>
  Claim C4, amended. The effective rate is the parsed override whenever the override is
  enabled, whatever it parses to (\<open>NaN\<close> for an empty or unparsable field), and the
  last resolved quote when the override is disabled. It agrees with the words of the
  specification when the override is disabled or parses as a finite number.
\<close>

theorem effectiveRate_amended:
  "(useCustomRate s \<longrightarrow> effectiveRate s = JNum (parseFloat (customRate s)))
   \<and> (\<not> useCustomRate s \<longrightarrow> effectiveRate s = exchangeRate s)
   \<and> (useCustomRate s \<and> \<not> isFinite (parseFloat (customRate s)) \<longrightarrow>
        (\<exists>n. effectiveRate s = JNum n \<and> \<not> isFinite n))
   \<and> (\<not> useCustomRate s \<or> isFinite (parseFloat (customRate s)) \<longrightarrow>
        effectiveRate s = effectiveRate_spec s)"
  by (simp add: effectiveRate_def effectiveRate_spec_def)

theorem effectiveRate_amended_witness:
  "effectiveRate ((initialState False)\<lparr>customRate := ''1.25'', useCustomRate := True\<rparr>)
     = JNum (Fin (5 / 4))
   \<and> effectiveRate ((initialState False)\<lparr>customRate := ''abc'', useCustomRate := True\<rparr>)
     = JNum NaN
   \<and> effectiveRate ((initialState False)\<lparr>customRate := ''1.25''\<rparr>) = JNum (Fin 0)"
  using
    effectiveRate_amended [of "(initialState False)\<lparr>customRate := ''1.25'', useCustomRate := True\<rparr>"]
    effectiveRate_amended [of "(initialState False)\<lparr>customRate := ''abc'', useCustomRate := True\<rparr>"]
    effectiveRate_amended [of "(initialState False)\<lparr>customRate := ''1.25''\<rparr>"]
  by (simp add: initialState_def parseFloat_1_25 parseFloat_abc)

text \<open>A cycle leaves the two currencies as they are.\<close>

lemma fetchExchangeRate_currencies:
  "fromCurrency (fetchExchangeRate p snap st) = fromCurrency st"
  "toCurrency (fetchExchangeRate p snap st) = toCurrency st"
proof -
  have "fromCurrency (fetchExchangeRate p snap st) = fromCurrency st
    \<and> toCurrency (fetchExchangeRate p snap st) = toCurrency st"
  proof (cases "snd (resolveRate (fetch p) (fromCurrency snap) (toCurrency snap))")
    case (Inl e)
    then show ?thesis by (simp add: fetchExchangeRate_def Let_def)
  next
    case (Inr r)
    show ?thesis
    proof (cases "fetchHistoricalRates p snap (st\<lparr>loading := True, error := '''', exchangeRate := r\<rparr>)")
      case (Inl e)
      then show ?thesis using Inr by (simp add: fetchExchangeRate_def Let_def)
    next
      case h: (Inr st')
      from fetchHistoricalRates_frame(2,3) [OF h] h Inr show ?thesis
        by (simp add: fetchExchangeRate_def Let_def)
    qed
  qed
  then show "fromCurrency (fetchExchangeRate p snap st) = fromCurrency st"
    and "toCurrency (fetchExchangeRate p snap st) = toCurrency st" by simp_all
qed

text \<open>
  Claim C8. Both setter calls of the swap handler read the values of its render. The
  handler of a render, applied to the state of that render, exchanges the two
  currencies and changes nothing else; the handler of the next render, applied to the
  result, restores the state, and it restores the pair also when the resolve cycle that
  the first swap triggers has run in between.
\<close>

theorem swap_exchanges:
  "fromCurrency (handleSwapCurrencies s s) = toCurrency s
   \<and> toCurrency (handleSwapCurrencies s s) = fromCurrency s
   \<and> handleSwapCurrencies s s = s\<lparr>fromCurrency := toCurrency s, toCurrency := fromCurrency s\<rparr>
   \<and> handleSwapCurrencies (handleSwapCurrencies s s) (handleSwapCurrencies s s) = s
   \<and> fromCurrency
        (handleSwapCurrencies
          (fetchExchangeRate p (handleSwapCurrencies s s) (handleSwapCurrencies s s))
          (fetchExchangeRate p (handleSwapCurrencies s s) (handleSwapCurrencies s s)))
       = fromCurrency s
   \<and> toCurrency
        (handleSwapCurrencies
          (fetchExchangeRate p (handleSwapCurrencies s s) (handleSwapCurrencies s s))
          (fetchExchangeRate p (handleSwapCurrencies s s) (handleSwapCurrencies s s)))
       = toCurrency s"
proof -
  have a: "handleSwapCurrencies t t = t\<lparr>fromCurrency := toCurrency t, toCurrency := fromCurrency t\<rparr>"
    for t
    by (simp add: handleSwapCurrencies_def Let_def)
  have b: "fromCurrency (handleSwapCurrencies (fetchExchangeRate p t t) (fetchExchangeRate p t t))
        = toCurrency t
      \<and> toCurrency (handleSwapCurrencies (fetchExchangeRate p t t) (fetchExchangeRate p t t))
        = fromCurrency t" for t
    by (simp add: a fetchExchangeRate_currencies)
  show ?thesis
    using b [of "handleSwapCurrencies s s"] by (simp add: a)
qed

text \<open>
  Claim C7. A resolve cycle fails when the resolver throws, which it does when
  \<open>fetch\<close> rejects, when the response is not ok and when the response has no usable
  rate. After a failed cycle the error message is the fixed text, the loading flag is
  off, and the exchange rate and the historical series are those of the state before.
\<close>

theorem failed_cycle:
  "(fromCurrency snap \<notin> set cryptoCurrencies \<and> toCurrency snap \<notin> set cryptoCurrencies \<and>
      (fetch p (apiUrl (fromCurrency snap)) = Rejected \<or>
       (\<exists>resp. fetch p (apiUrl (fromCurrency snap)) = Resolved resp \<and>
          (\<not> ok resp \<or> \<not> usableRate resp (toCurrency snap))))
    \<longrightarrow> isl (snd (resolveRate (fetch p) (fromCurrency snap) (toCurrency snap))))
   \<and> (isl (snd (resolveRate (fetch p) (fromCurrency snap) (toCurrency snap))) \<longrightarrow>
        error (fetchExchangeRate p snap st)
          = ''Failed to fetch exchange rate. Please try again later.''
        \<and> \<not> loading (fetchExchangeRate p snap st)
        \<and> exchangeRate (fetchExchangeRate p snap st) = exchangeRate st
        \<and> historicalRates (fetchExchangeRate p snap st) = historicalRates st)"
proof (intro conjI impI)
  assume h: "fromCurrency snap \<notin> set cryptoCurrencies \<and> toCurrency snap \<notin> set cryptoCurrencies \<and>
      (fetch p (apiUrl (fromCurrency snap)) = Rejected \<or>
       (\<exists>resp. fetch p (apiUrl (fromCurrency snap)) = Resolved resp \<and>
          (\<not> ok resp \<or> \<not> usableRate resp (toCurrency snap))))"
  then have nc: "fromCurrency snap \<notin> set cryptoCurrencies"
    "toCurrency snap \<notin> set cryptoCurrencies" by simp_all
  note rr = remote_resolution [where net = "fetch p", OF nc]
  from h have "fetch p (apiUrl (fromCurrency snap)) = Rejected \<or>
       (\<exists>resp. fetch p (apiUrl (fromCurrency snap)) = Resolved resp \<and>
          (\<not> ok resp \<or> \<not> usableRate resp (toCurrency snap)))" by simp
  then show "isl (snd (resolveRate (fetch p) (fromCurrency snap) (toCurrency snap)))"
  proof (elim disjE exE conjE)
    assume "fetch p (apiUrl (fromCurrency snap)) = Rejected"
    then show ?thesis using rr(2) by simp
  next
    fix resp
    assume r: "fetch p (apiUrl (fromCurrency snap)) = Resolved resp" and "\<not> ok resp"
    then show ?thesis using rr(3) [OF r] by simp
  next
    fix resp
    assume r: "fetch p (apiUrl (fromCurrency snap)) = Resolved resp"
      and nu: "\<not> usableRate resp (toCurrency snap)"
    show ?thesis
    proof (cases "ok resp")
      case False
      then show ?thesis using rr(3) [OF r] by simp
    next
      case True
      show ?thesis
      proof (cases "ratesEntry resp (toCurrency snap)")
        case (Inl e)
        then show ?thesis using rr(4) [OF r True] by simp
      next
        case (Inr v)
        with nu have "\<not> ToBoolean v" by (simp add: usableRate_def)
        then show ?thesis using rr(5) [OF r True Inr] by simp
      qed
    qed
  qed
next
  assume "isl (snd (resolveRate (fetch p) (fromCurrency snap) (toCurrency snap)))"
  then obtain e where e: "snd (resolveRate (fetch p) (fromCurrency snap) (toCurrency snap)) = Inl e"
    by (auto simp: isl_def)
  show "error (fetchExchangeRate p snap st)
          = ''Failed to fetch exchange rate. Please try again later.''"
    by (simp add: fetchExchangeRate_def e Let_def)
  show "\<not> loading (fetchExchangeRate p snap st)"
    by (simp add: fetchExchangeRate_def Let_def)
  show "exchangeRate (fetchExchangeRate p snap st) = exchangeRate st"
    by (simp add: fetchExchangeRate_def e Let_def)
  show "historicalRates (fetchExchangeRate p snap st) = historicalRates st"
    by (simp add: fetchExchangeRate_def e Let_def)
qed

theorem failed_cycle_witness:
  "error (fetchExchangeRate offline (initialState False)
      ((initialState False)\<lparr>exchangeRate := JNum (roundToDouble 0.9),
         historicalRates := [\<lparr>date = ''2024-01-01'', rate = roundToDouble 0.9\<rparr>]\<rparr>))
     = ''Failed to fetch exchange rate. Please try again later.''
   \<and> \<not> loading (fetchExchangeRate offline (initialState False)
      ((initialState False)\<lparr>exchangeRate := JNum (roundToDouble 0.9),
         historicalRates := [\<lparr>date = ''2024-01-01'', rate = roundToDouble 0.9\<rparr>]\<rparr>))
   \<and> exchangeRate (fetchExchangeRate offline (initialState False)
      ((initialState False)\<lparr>exchangeRate := JNum (roundToDouble 0.9),
         historicalRates := [\<lparr>date = ''2024-01-01'', rate = roundToDouble 0.9\<rparr>]\<rparr>))
     = JNum (roundToDouble 0.9)
   \<and> historicalRates (fetchExchangeRate offline (initialState False)
      ((initialState False)\<lparr>exchangeRate := JNum (roundToDouble 0.9),
         historicalRates := [\<lparr>date = ''2024-01-01'', rate = roundToDouble 0.9\<rparr>]\<rparr>))
     = [\<lparr>date = ''2024-01-01'', rate = roundToDouble 0.9\<rparr>]"
proof -
  have a: "fromCurrency (initialState False) \<notin> set cryptoCurrencies"
    "toCurrency (initialState False) \<notin> set cryptoCurrencies"
    by (simp_all add: initialState_def crypto_mem)
  have b: "fetch offline (apiUrl (fromCurrency (initialState False))) = Rejected"
    by (simp add: offline_def)
  show ?thesis
    using a b
      failed_cycle [of "initialState False" offline
        "(initialState False)\<lparr>exchangeRate := JNum (roundToDouble 0.9),
           historicalRates := [\<lparr>date = ''2024-01-01'', rate = roundToDouble 0.9\<rparr>]\<rparr>"]
    by simp
qed

section \<open>Properties of the rendered text\<close>
















text \<open>A text can denote a number too small or too large for a double.\<close>

lemma parseFloat_1e_400: "parseFloat ''1e-400'' = Fin 0"
proof -
  have "roundToDouble (1 / 10 ^ 400) = Fin 0"
    using roundToDouble_subnormal [of "1 / 10 ^ 400"]
    by (simp add: pow2_def rne_def Let_def)
  then show ?thesis by (simp add: parseFloat_defs)
qed

lemma parseFloat_1e400: "parseFloat ''1e400'' = PosInf"
proof -
  have "roundToDouble (10 ^ 400) = PosInf"
    using roundToDouble_overflow [of "10 ^ 400"] by (simp add: pow2_def inf_of_def)
  then show ?thesis by (simp add: parseFloat_defs)
qed

text \<open>The product of 100 and the double of 0.9 is 90.\<close>

lemma roundToDouble_product_90:
  "roundToDouble (202661983231672325 / 2251799813685248) = Fin 90"
  using roundToDouble_eval [of 6 "202661983231672325 / 2251799813685248"]
  by (simp add: pow2_def rne_def Let_def)

lemma product_100_0_9:
  "num_mul (Fin 100) (Fin (8106479329266893 / 9007199254740992)) = Fin 90"
  by (simp add: roundToDouble_product_90)

text \<open>A double rounds to itself.\<close>

lemma roundToDouble_idem: "roundToDouble x = Fin y \<Longrightarrow> roundToDouble y = Fin y"
  by (rule roundToDouble_exact) (rule roundToDouble_isDouble)




lemma parseFloat_0_00: "parseFloat ''0.00'' = Fin 0"
  by (simp add: parseFloat_defs roundToDouble_def)

text \<open>
  Claim C10. An amount that parses to zero, as \<open>0\<close> does, is falsy, so the conversion
  line is the text asking for a valid amount and not a conversion of zero.
\<close>

theorem zero_amount_display:
  "(parseFloat (amount s) = Fin 0 \<longrightarrow>
      conversionLine p s = Inr ''Please enter a valid amount'')
   \<and> parseFloat ''0'' = Fin 0
   \<and> conversionLine p (s\<lparr>amount := ''0''\<rparr>) = Inr ''Please enter a valid amount''
   \<and> conversionLine p ((initialState d)\<lparr>amount := ''0''\<rparr>) \<noteq> Inr ''0 USD = 0.00 EUR''"
  by (simp add: conversionLine_def parseFloat_0)

theorem zero_amount_display_witness:
  "parseFloat (amount ((initialState True)\<lparr>amount := ''0.00''\<rparr>)) = Fin 0
   \<and> conversionLine offline ((initialState True)\<lparr>amount := ''0.00''\<rparr>)
       = Inr ''Please enter a valid amount''
   \<and> parseFloat (amount ((initialState True)\<lparr>amount := ''1e-400''\<rparr>)) = Fin 0
   \<and> conversionLine offline ((initialState True)\<lparr>amount := ''1e-400''\<rparr>)
       = Inr ''Please enter a valid amount''"
  using zero_amount_display [of "(initialState True)\<lparr>amount := ''0.00''\<rparr>" offline]
    zero_amount_display [of "(initialState True)\<lparr>amount := ''1e-400''\<rparr>" offline]
  by (simp add: parseFloat_0_00 parseFloat_1e_400)

section \<open>Calendar facts\<close>

lemma divmod_split:
  fixes a k :: int
  assumes "0 < k"
  obtains q r where "a = k * q + r" "0 \<le> r" "r < k" "a div k = q" "a mod k = r"
proof
  show "a = k * (a div k) + a mod k" by simp
  show "0 \<le> a mod k" using assms by simp
  show "a mod k < k" using assms by simp
  show "a div k = a div k" ..
  show "a mod k = a mod k" ..
qed

lemma div_succ:
  fixes a k :: int
  assumes "0 < k"
  shows "(a + 1) div k = a div k + (if (a + 1) mod k = 0 then 1 else 0)"
proof -
  obtain q r where a: "a = k * q + r" "0 \<le> r" "r < k" "a div k = q"
    using divmod_split [OF assms] by blast
  show ?thesis
  proof (cases "r + 1 = k")
    case True
    then have "a + 1 = k * (q + 1) + 0" using a(1) by (simp add: algebra_simps)
    then have "(a + 1) div k = q + 1" "(a + 1) mod k = 0"
      using assms by (auto intro: int_div_pos_eq int_mod_pos_eq)
    then show ?thesis using a(4) by simp
  next
    case False
    then have lt: "r + 1 < k" using a(3) by simp
    have "a + 1 = k * q + (r + 1)" using a(1) by simp
    then have "(a + 1) div k = q" "(a + 1) mod k = r + 1"
      using lt a(2) by (auto intro: int_div_pos_eq int_mod_pos_eq)
    then show ?thesis using a(2,4) by simp
  qed
qed

lemma mod_shift: "(y - k * c) mod k = y mod k" for y k c :: int
  using mod_mult_self2 [of y k "- c"] by simp

text \<open>A year begins where the year before ends.\<close>

lemma DayFromYear_step: "DayFromYear (y + 1) = DayFromYear y + DaysInYear y"
proof -
  have a: "(y + 1 - 1969) div 4 = (y - 1969) div 4 + (if y mod 4 = 0 then 1 else 0)"
    using div_succ [of 4 "y - 1969"] mod_shift [of y 4 492] by (simp add: algebra_simps)
  have b: "(y + 1 - 1901) div 100 = (y - 1901) div 100 + (if y mod 100 = 0 then 1 else 0)"
    using div_succ [of 100 "y - 1901"] mod_shift [of y 100 19] by (simp add: algebra_simps)
  have c: "(y + 1 - 1601) div 400 = (y - 1601) div 400 + (if y mod 400 = 0 then 1 else 0)"
    using div_succ [of 400 "y - 1601"] mod_shift [of y 400 4] by (simp add: algebra_simps)
  have m1: "y mod 4 = 0" if "y mod 100 = 0"
  proof -
    have "(4::int) dvd 100" by simp
    moreover have "100 dvd y" using that by (rule mod_0_imp_dvd)
    ultimately have "4 dvd y" by (rule dvd_trans)
    then show ?thesis by (rule dvd_imp_mod_0)
  qed
  have m2: "y mod 100 = 0" if "y mod 400 = 0"
  proof -
    have "(100::int) dvd 400" by simp
    moreover have "400 dvd y" using that by (rule mod_0_imp_dvd)
    ultimately have "100 dvd y" by (rule dvd_trans)
    then show ?thesis by (rule dvd_imp_mod_0)
  qed
  show ?thesis
    unfolding DayFromYear_def DaysInYear_def a b c using m1 m2 by auto
qed

lemma DaysInYear_cases: "DaysInYear y = 365 \<or> DaysInYear y = 366"
  by (simp add: DaysInYear_def)

lemma DayFromYear_mono:
  assumes "y \<le> y'"
  shows "DayFromYear y \<le> DayFromYear y'"
  using assms
proof (induction y' rule: int_ge_induct)
  case base
  show ?case by simp
next
  case (step i)
  then show ?case
    using DayFromYear_step [of i] DaysInYear_cases [of i] by auto
qed

text \<open>The day a year begins is within a day and a half of its mean position.\<close>

lemma DayFromYear_estimate:
  "10000 * DayFromYear y \<le> 3652425 * (y - 1970) + 14725"
  "3652425 * (y - 1970) - 12650 \<le> 10000 * DayFromYear y"
proof -
  obtain q4 r4 where a: "y - 1969 = 4 * q4 + r4" "0 \<le> r4" "r4 < 4" "(y - 1969) div 4 = q4"
    using divmod_split [of 4 "y - 1969"] by auto
  obtain q1 r1 where b: "y - 1901 = 100 * q1 + r1" "0 \<le> r1" "r1 < 100" "(y - 1901) div 100 = q1"
    using divmod_split [of 100 "y - 1901"] by auto
  obtain q2 r2 where c: "y - 1601 = 400 * q2 + r2" "0 \<le> r2" "r2 < 400" "(y - 1601) div 400 = q2"
    using divmod_split [of 400 "y - 1601"] by auto
  have e: "DayFromYear y = 365 * (y - 1970) + q4 - q1 + q2"
    by (simp only: DayFromYear_def a(4) b(4) c(4))
  have a': "10000 * q4 = 2500 * (y - 1969) - 2500 * r4" using a(1) by simp
  have b': "10000 * q1 = 100 * (y - 1901) - 100 * r1" using b(1) by simp
  have c': "10000 * q2 = 25 * (y - 1601) - 25 * r2" using c(1) by simp
  have e': "10000 * DayFromYear y
      = 3652425 * (y - 1970) + 4825 - 2500 * r4 + 100 * r1 - 25 * r2"
    unfolding e using a' b' c' by simp
  show "10000 * DayFromYear y \<le> 3652425 * (y - 1970) + 14725"
    unfolding e' using a(2,3) b(2,3) c(2,3) by simp
  show "3652425 * (y - 1970) - 12650 \<le> 10000 * DayFromYear y"
    unfolding e' using a(2,3) b(2,3) c(2,3) by simp
qed

text \<open>\<open>YearFromDay d\<close> is the year that contains the day \<open>d\<close>, and the largest one
  that begins on or before it, as ECMA-262 defines the year of a time value.\<close>

lemma YearFromDay_bounds:
  "DayFromYear (YearFromDay d) \<le> d \<and> d < DayFromYear (YearFromDay d + 1)"
proof -
  obtain q r where q: "d * 10000 = 3652425 * q + r" "0 \<le> r" "r < 3652425"
      "(d * 10000) div 3652425 = q"
    using divmod_split [of 3652425 "d * 10000"] by auto
  have y: "YearFromDay d = (if d < DayFromYear (1970 + q) then 1970 + q - 1
       else if DayFromYear (1970 + q + 1) \<le> d then 1970 + q + 1 else 1970 + q)"
    by (simp only: YearFromDay_def q(4) Let_def)
  have "10000 * DayFromYear (1970 + q - 1) \<le> 3652425 * q - 3652425 + 14725"
    using DayFromYear_estimate(1) [of "1970 + q - 1"] by simp
  then have "10000 * DayFromYear (1970 + q - 1) \<le> 10000 * d" using q(1-3) by simp
  then have lo: "DayFromYear (1970 + q - 1) \<le> d" by simp
  have "3652425 * q + 2 * 3652425 - 12650 \<le> 10000 * DayFromYear (1970 + q + 1 + 1)"
    using DayFromYear_estimate(2) [of "1970 + q + 1 + 1"] by simp
  then have "10000 * d < 10000 * DayFromYear (1970 + q + 1 + 1)" using q(1-3) by simp
  then have hi: "d < DayFromYear (1970 + q + 1 + 1)" by simp
  show ?thesis
    unfolding y using lo hi by (auto simp: algebra_simps)
qed

lemma YearFromDay_largest:
  assumes "DayFromYear y \<le> d"
  shows "y \<le> YearFromDay d"
proof (rule ccontr)
  assume "\<not> y \<le> YearFromDay d"
  then have "YearFromDay d + 1 \<le> y" by simp
  then have "DayFromYear (YearFromDay d + 1) \<le> DayFromYear y" by (rule DayFromYear_mono)
  then show False using YearFromDay_bounds [of d] assms by simp
qed

lemma YearFromDay_eq:
  assumes "DayFromYear y \<le> d" and "d < DayFromYear (y + 1)"
  shows "YearFromDay d = y"
proof (rule antisym)
  show "y \<le> YearFromDay d" using assms(1) by (rule YearFromDay_largest)
  show "YearFromDay d \<le> y"
  proof (rule ccontr)
    assume "\<not> YearFromDay d \<le> y"
    then have "y + 1 \<le> YearFromDay d" by simp
    then have "DayFromYear (y + 1) \<le> DayFromYear (YearFromDay d)" by (rule DayFromYear_mono)
    then show False using YearFromDay_bounds [of d] assms(2) by simp
  qed
qed

text \<open>
  The year, the month and the day of the month of a day that \<open>MakeDay\<close> makes from a
  year, a month from 0 to 11 and a day of that month come out again.
\<close>

lemma civil_of_MakeDay:
  assumes m: "0 \<le> m" "m \<le> 11" and dt: "1 \<le> dt" "MakeDay y m dt < MakeDay y (m + 1) 1"
    and t: "Day t = MakeDay y m dt"
  shows "YearFromTime t = y \<and> MonthFromTime t = m \<and> DateFromTime t = dt"
proof -
  define leap :: int where "leap = (if DaysInYear y = 366 then 1 else 0)"
  have d: "Day t = DayFromYear y + daysBeforeMonth m leap + dt - 1"
    using t m by (simp add: MakeDay_in_year leap_def)
  have nxt: "MakeDay y (m + 1) 1 =
      (if m = 11 then DayFromYear y + DaysInYear y
       else DayFromYear y + daysBeforeMonth (m + 1) leap)"
  proof (cases "m = 11")
    case True
    then show ?thesis
      using DayFromYear_step [of y] by (simp add: MakeDay_def Let_def daysBeforeMonth_def)
  next
    case False
    then show ?thesis using m by (simp add: MakeDay_in_year leap_def)
  qed
  have mc: "m = 0 \<or> m = 1 \<or> m = 2 \<or> m = 3 \<or> m = 4 \<or> m = 5 \<or> m = 6 \<or> m = 7
      \<or> m = 8 \<or> m = 9 \<or> m = 10 \<or> m = 11"
    using m by arith
  have lp: "0 \<le> leap" "DaysInYear y = 365 + leap"
    using DaysInYear_cases [of y] by (auto simp: leap_def)
  have lo: "0 \<le> daysBeforeMonth m leap"
    using lp(1) by (simp add: daysBeforeMonth_def)
  have hi: "daysBeforeMonth m leap + dt - 1 < DaysInYear y"
    using mc dt(2) d t lp unfolding nxt
    by (elim disjE) (simp_all add: daysBeforeMonth_def)
  have y: "YearFromTime t = y"
    unfolding YearFromTime_def
    using d lo hi dt(1) DayFromYear_step [of y] by (intro YearFromDay_eq) simp_all
  have w: "DayWithinYear t = daysBeforeMonth m leap + dt - 1"
    by (simp add: DayWithinYear_def y d)
  have il: "InLeapYear t = leap"
    by (simp add: InLeapYear_def y leap_def)
  have up: "m \<noteq> 11 \<Longrightarrow> daysBeforeMonth m leap + dt - 1 < daysBeforeMonth (m + 1) leap"
    using dt(2) d t unfolding nxt by simp
  have mo: "MonthFromTime t = m"
    using mc dt(1) lp up
    by (elim disjE) (simp_all add: MonthFromTime_def w il Let_def daysBeforeMonth_def)
  show ?thesis
    by (simp add: y mo DateFromTime_def w il)
qed

section \<open>Properties of the historical series\<close>

text \<open>Local time in a zone with a fixed offset.\<close>

lemma LocalTime_fixedOffset: "LocalTime (fixedOffset c) t = t + c"
  by (simp add: LocalTime_def fixedOffset.rep_eq)

lemma UTC_fixedOffset: "UTC (fixedOffset c) t = t - c"
  by (simp add: UTC_def fixedOffset.rep_eq)

lemma LocalTime_utc: "LocalTime utc t = t"
  by (simp add: utc_def LocalTime_fixedOffset)

lemma Day_mult: "Day (d * msPerDay) = d"
  by (simp add: Day_def msPerDay_def)

text \<open>The text of a date is that of its local calendar day.\<close>

lemma format_Day: "format_yyyy_MM_dd z t = formatDay (Day (LocalTime z t))"
  by (simp add: formatDay_def format_yyyy_MM_dd_def getFullYear_def getMonth_def getDate_def
      DateFromTime_def MonthFromTime_def DayWithinYear_def InLeapYear_def YearFromTime_def
      Day_mult LocalTime_utc)

lemma Day_add_days: "Day (t + k * msPerDay) = Day t + k"
  by (simp add: Day_def msPerDay_def)

lemma formatDay_MakeDay:
  assumes "0 \<le> m" "m \<le> 11" "1 \<le> dt" "MakeDay y m dt < MakeDay y (m + 1) 1" "0 < y"
  shows "formatDay (MakeDay y m dt)
    = addLeadingZeros y 4 @ ''-'' @ addLeadingZeros (m + 1) 2 @ ''-'' @ addLeadingZeros dt 2"
  using civil_of_MakeDay [OF assms(1-4), of "MakeDay y m dt * msPerDay"] assms(5)
  by (simp add: formatDay_def format_yyyy_MM_dd_def getFullYear_def getMonth_def getDate_def
      Day_mult Let_def LocalTime_utc)

text \<open>The dates of the generated series are those the loop collects.\<close>

lemma series_dates:
  assumes "fetchHistoricalRates p snap st = Inr st'"
  shows "map date (historicalRates st')
     = collectDates (timeZone p) (newDate p) (getDateRange p snap) []"
proof -
  let ?dates = "collectDates (timeZone p) (newDate p) (getDateRange p snap) []"
  have "map date (historicalRates st') = map snd (zip [0 ..< length ?dates] ?dates)"
    using assms
    by (auto simp: fetchHistoricalRates_def Let_def case_prod_beta comp_def
        split: if_splits sum.splits)
  then show ?thesis by (simp add: map_snd_zip)
qed

text \<open>With a number as the base rate the generation of the series does not throw.\<close>

lemma fetchHistoricalRates_returns:
  assumes "exchangeRate snap = JNum n"
  shows "\<exists>st'. fetchHistoricalRates p snap st = Inr st'"
  using assms by (simp add: fetchHistoricalRates_def Let_def)

subsection \<open>In a zone with a fixed offset\<close>

lemma setDate_next_fixed:
  "setDate (fixedOffset c) t (getDate (fixedOffset c) t + 1) = t + msPerDay"
  by (simp add: setDate_shift LocalTime_fixedOffset UTC_fixedOffset)

text \<open>What the loop collects, counted in steps of one day from its start.\<close>

lemma collectDates_unfold:
  assumes "z = fixedOffset c"
  shows "collectDates z now cur dates =
     dates @ map (\<lambda>k. format_yyyy_MM_dd z (cur + int k * msPerDay))
               [0 ..< (if cur \<le> now then nat ((now - cur) div msPerDay + 1) else 0)]"
  using assms
proof (induction z now cur dates rule: collectDates.induct)
  case (1 z now cur dates)
  note z = \<open>z = fixedOffset c\<close>
  have nx: "setDate z cur (getDate z cur + 1) = cur + msPerDay"
    unfolding z by (rule setDate_next_fixed)
  show ?case
  proof (cases "cur \<le> now")
    case False
    then show ?thesis by (simp add: collectDates.simps)
  next
    case True
    let ?n = "\<lambda>c. if c \<le> now then nat ((now - c) div msPerDay + 1) else 0"
    have step: "?n cur = Suc (?n (cur + msPerDay))"
    proof (cases "cur + msPerDay \<le> now")
      case True
      have "(now - cur) div msPerDay = (now - (cur + msPerDay)) div msPerDay + 1"
        by (simp add: msPerDay_def)
      moreover have "0 \<le> (now - (cur + msPerDay)) div msPerDay"
        using True by (simp add: msPerDay_def)
      ultimately show ?thesis using True \<open>cur \<le> now\<close> by simp
    next
      case False
      then have "(now - cur) div msPerDay = 0"
        using \<open>cur \<le> now\<close> by (simp add: msPerDay_def div_pos_pos_trivial)
      then show ?thesis using False \<open>cur \<le> now\<close> by simp
    qed
    have "collectDates z now cur dates =
        collectDates z now (cur + msPerDay) (dates @ [format_yyyy_MM_dd z cur])"
      using True by (subst collectDates.simps) (simp add: nx)
    also have "\<dots> = (dates @ [format_yyyy_MM_dd z cur]) @
        map (\<lambda>k. format_yyyy_MM_dd z (cur + msPerDay + int k * msPerDay))
          [0 ..< ?n (cur + msPerDay)]"
      using "1.IH" [OF True z] by (simp only: nx)
    also have "\<dots> = dates @ map (\<lambda>k. format_yyyy_MM_dd z (cur + int k * msPerDay)) [0 ..< ?n cur]"
    proof -
      have "[0 ..< Suc (?n (cur + msPerDay))] = 0 # map Suc [0 ..< ?n (cur + msPerDay)]"
        by (simp only: map_Suc_upt upt_conv_Cons [OF zero_less_Suc])
      then show ?thesis
        unfolding step by (simp add: algebra_simps comp_def)
    qed
    finally show ?thesis .
  qed
qed

lemma map_upto_shift:
  "map (\<lambda>k. f (a + int k)) [0 ..< nat (b - a + 1)] = map f [a .. b]"
proof (induction "nat (b - a + 1)" arbitrary: a)
  case 0
  then show ?case by simp
next
  case (Suc n)
  then have ab: "a \<le> b" and n: "n = nat (b - (a + 1) + 1)" by simp_all
  have "[0 ..< Suc n] = 0 # map Suc [0 ..< n]"
    by (simp only: map_Suc_upt upt_conv_Cons [OF zero_less_Suc])
  then have "map (\<lambda>k. f (a + int k)) [0 ..< nat (b - a + 1)]
      = f a # map (\<lambda>k. f (a + 1 + int k)) [0 ..< n]"
    using Suc(2) [symmetric] by (simp add: comp_def algebra_simps)
  also have "\<dots> = f a # map f [a + 1 .. b]"
    using Suc(1) [OF n] n by simp
  also have "\<dots> = map f [a .. b]"
    using ab by (simp add: upto_rec1)
  finally show ?case .
qed

text \<open>
  When the start has the local time of day of the clock, the loop collects the local
  calendar days from the day of the start to the day of the clock, both included.
\<close>

lemma collectDates_days:
  assumes "TimeWithinDay (start + c) = TimeWithinDay (now + c)"
  shows "collectDates (fixedOffset c) now start []
    = map formatDay [Day (start + c) .. Day (now + c)]"
proof -
  let ?s = "start + c" and ?n = "now + c"
  have s: "?s = Day ?s * msPerDay + TimeWithinDay ?n"
    using MakeDate_Day [of ?s] assms by (simp add: MakeDate_def)
  have n: "?n = Day ?n * msPerDay + TimeWithinDay ?n"
    using MakeDate_Day [of ?n] by (simp add: MakeDate_def)
  have diff: "now - start = (Day ?n - Day ?s) * msPerDay"
    using s n by (simp add: algebra_simps)
  have le: "start \<le> now \<longleftrightarrow> Day ?s \<le> Day ?n"
  proof -
    have "start \<le> now \<longleftrightarrow> 0 \<le> (Day ?n - Day ?s) * msPerDay"
      using diff by linarith
    also have "\<dots> \<longleftrightarrow> 0 \<le> Day ?n - Day ?s"
      by (simp add: msPerDay_def)
    finally show ?thesis by simp
  qed
  have dv: "(now - start) div msPerDay = Day ?n - Day ?s"
    unfolding diff by (simp add: msPerDay_def)
  have cnt: "(if start \<le> now then nat ((now - start) div msPerDay + 1) else 0)
      = nat (Day ?n - Day ?s + 1)"
    using le dv by simp
  have sh: "start + int k * msPerDay + c = ?s + int k * msPerDay" for k
    by simp
  have "collectDates (fixedOffset c) now start [] =
      map (\<lambda>k. formatDay (Day ?s + int k)) [0 ..< nat (Day ?n - Day ?s + 1)]"
    unfolding collectDates_unfold [OF refl] cnt
    by (simp add: format_Day LocalTime_fixedOffset sh Day_add_days)
  then show ?thesis by (simp only: map_upto_shift)
qed

text \<open>The functions of date-fns keep the local time of day.\<close>

lemma TimeWithinDay_addDays:
  "TimeWithinDay (addDays (fixedOffset c) t n + c) = TimeWithinDay (t + c)"
  by (simp add: addDays_def setDate_def Let_def LocalTime_fixedOffset UTC_fixedOffset
      TimeWithinDay_MakeDate)

lemma TimeWithinDay_addMonths:
  "TimeWithinDay (addMonths (fixedOffset c) t n + c) = TimeWithinDay (t + c)"
  by (simp add: addMonths_def setMonth_def setFullYear_def Let_def LocalTime_fixedOffset
      UTC_fixedOffset TimeWithinDay_MakeDate)

lemma TimeWithinDay_getDateRange:
  assumes "timeZone p = fixedOffset c"
  shows "TimeWithinDay (getDateRange p snap + c) = TimeWithinDay (newDate p + c)"
  by (simp add: getDateRange_def subDays_def subMonths_def subYears_def addYears_def assms
      TimeWithinDay_addDays TimeWithinDay_addMonths Let_def)

lemma Day_subDays: "Day (subDays (fixedOffset c) t n + c) = Day (t + c) - n"
proof (cases "n = 0")
  case True
  then show ?thesis by (simp add: subDays_def addDays_def)
next
  case False
  have "setDate (fixedOffset c) t (getDate (fixedOffset c) t + - n)
      = UTC (fixedOffset c) (LocalTime (fixedOffset c) t + - n * msPerDay)"
    by (rule setDate_shift)
  with False have "subDays (fixedOffset c) t n = t + (- n) * msPerDay"
    by (simp add: subDays_def addDays_def LocalTime_fixedOffset UTC_fixedOffset)
  then have "subDays (fixedOffset c) t n + c = (t + c) + (- n) * msPerDay" by simp
  then show ?thesis by (simp only: Day_add_days)
qed

text \<open>
  In a zone with a fixed offset the series has one point for every local calendar day
  from the day of the start of the range to the day of the clock, both included, in
  ascending order; for the range of one week the start is seven days before the clock.
\<close>

lemma fixed_offset_series:
  assumes "timeZone p = fixedOffset c" and "fetchHistoricalRates p snap st = Inr st'"
  shows "map date (historicalRates st')
    = map formatDay [Day (getDateRange p snap + c) .. Day (newDate p + c)]"
    and "length (historicalRates st')
    = nat (Day (newDate p + c) - Day (getDateRange p snap + c) + 1)"
    and "timeRange snap \<noteq> ''1m'' \<Longrightarrow> timeRange snap \<noteq> ''3m'' \<Longrightarrow> timeRange snap \<noteq> ''1y'' \<Longrightarrow>
      Day (getDateRange p snap + c) = Day (newDate p + c) - 7"
proof -
  show d: "map date (historicalRates st')
    = map formatDay [Day (getDateRange p snap + c) .. Day (newDate p + c)]"
    unfolding series_dates [OF assms(2)] assms(1)
    by (rule collectDates_days) (rule TimeWithinDay_getDateRange [OF assms(1)])
  have "length (historicalRates st') = length (map date (historicalRates st'))" by simp
  then show "length (historicalRates st')
    = nat (Day (newDate p + c) - Day (getDateRange p snap + c) + 1)"
    by (simp only: d length_map length_upto)
  assume "timeRange snap \<noteq> ''1m''" "timeRange snap \<noteq> ''3m''" "timeRange snap \<noteq> ''1y''"
  then show "Day (getDateRange p snap + c) = Day (newDate p + c) - 7"
    by (simp add: getDateRange_def Let_def assms(1) Day_subDays)
qed

section \<open>An example: the week up to 3 March 2024 in UTC\<close>

lemma MakeDay_2024_feb: "MakeDay 2024 1 dt = 19753 + dt"
  by (simp add: MakeDay_def Let_def DayFromYear_def DaysInYear_def daysBeforeMonth_def)

lemma MakeDay_2024_mar: "MakeDay 2024 2 dt = 19782 + dt"
  by (simp add: MakeDay_def Let_def DayFromYear_def DaysInYear_def daysBeforeMonth_def)

lemma MakeDay_2024_apr: "MakeDay 2024 3 dt = 19813 + dt"
  by (simp add: MakeDay_def Let_def DayFromYear_def DaysInYear_def daysBeforeMonth_def)

lemma formatDay_2024_feb:
  assumes "1 \<le> dt" and "dt \<le> 29"
  shows "formatDay (19753 + dt) = ''2024-02-'' @ addLeadingZeros dt 2"
  using formatDay_MakeDay [of 1 dt 2024] assms
  by (simp add: MakeDay_2024_feb MakeDay_2024_mar addLeadingZeros_def Let_def decimal.simps)

lemma formatDay_2024_mar:
  assumes "1 \<le> dt" and "dt \<le> 31"
  shows "formatDay (19782 + dt) = ''2024-03-'' @ addLeadingZeros dt 2"
  using formatDay_MakeDay [of 2 dt 2024] assms
  by (simp add: MakeDay_2024_mar MakeDay_2024_apr addLeadingZeros_def Let_def decimal.simps)

lemma week_days:
  "map formatDay [19778 .. 19785] =
     [''2024-02-25'', ''2024-02-26'', ''2024-02-27'', ''2024-02-28'', ''2024-02-29'',
      ''2024-03-01'', ''2024-03-02'', ''2024-03-03'']"
  using formatDay_2024_feb [of 25] formatDay_2024_feb [of 26] formatDay_2024_feb [of 27]
    formatDay_2024_feb [of 28] formatDay_2024_feb [of 29]
    formatDay_2024_mar [of 1] formatDay_2024_mar [of 2] formatDay_2024_mar [of 3]
  by (simp add: addLeadingZeros_def Let_def decimal.simps upto_rec1)

lemma march3_zone: "timeZone march3 = fixedOffset 0"
  by (simp add: march3_def offline_def utc_def)

lemma march3_dates:
  "collectDates (timeZone march3) (newDate march3) (getDateRange march3 usdEur) [] =
     [''2024-02-25'', ''2024-02-26'', ''2024-02-27'', ''2024-02-28'', ''2024-02-29'',
      ''2024-03-01'', ''2024-03-02'', ''2024-03-03'']"
proof -
  have a: "Day (newDate march3 + 0) = 19785"
    by (simp add: march3_def Day_def msPerDay_def)
  have "getDateRange march3 usdEur = subDays (fixedOffset 0) (newDate march3) 7"
    by (simp add: getDateRange_def usdEur_def initialState_def Let_def march3_zone)
  then have "Day (getDateRange march3 usdEur + 0) = Day (newDate march3 + 0) - 7"
    by (simp only: Day_subDays)
  then have b: "Day (getDateRange march3 usdEur + 0) = 19778"
    by (simp only: a)
  have "collectDates (fixedOffset 0) (newDate march3) (getDateRange march3 usdEur) []
      = map formatDay [Day (getDateRange march3 usdEur + 0) .. Day (newDate march3 + 0)]"
    by (rule collectDates_days) (rule TimeWithinDay_getDateRange [OF march3_zone])
  then show ?thesis by (simp only: march3_zone a b week_days)
qed

text \<open>The doubles of the example: the factor and the rate for a draw of 0, and the bounds.\<close>

lemma factor_0_05:
  "num_add (Fin 1)
     (num_sub (num_mul (num_mul (Fin 0) (Fin (3602879701896397 / 72057594037927936))) (Fin 2))
        (Fin (3602879701896397 / 72057594037927936)))
   = Fin (4278419646001971 / 4503599627370496)"
proof -
  let ?v = "3602879701896397 / 72057594037927936 :: real"
  have a: "num_mul (num_mul (Fin 0) (Fin ?v)) (Fin 2) = Fin 0"
    by (simp add: roundToDouble_def)
  have b: "roundToDouble (1 + - ?v) = Fin (4278419646001971 / 4503599627370496)"
    using roundToDouble_eval [of "- 1" "1 + - ?v"] by (simp add: pow2_def rne_def Let_def)
  have c: "roundToDouble (- ?v) = Fin (- ?v)"
    using roundToDouble_idem [OF roundToDouble_0_05] by (simp add: roundToDouble_minus)
  have "num_sub (Fin 0) (Fin ?v) = Fin (- ?v)"
    using c by (simp add: num_sub_def)
  moreover have "num_add (Fin 1) (Fin (- ?v)) = Fin (4278419646001971 / 4503599627370496)"
    using b by simp
  ultimately show ?thesis by (simp only: a)
qed

lemma lower_0_05:
  "num_sub (Fin 1) (Fin (3602879701896397 / 72057594037927936))
   = Fin (4278419646001971 / 4503599627370496)"
  using roundToDouble_eval [of "- 1" "1 + - (3602879701896397 / 72057594037927936)"]
  by (simp add: num_sub_def pow2_def rne_def Let_def)

lemma upper_0_05:
  "num_add (Fin 1) (Fin (3602879701896397 / 72057594037927936))
   = Fin (4728779608739021 / 4503599627370496)"
  using roundToDouble_eval [of 0 "1 + 3602879701896397 / 72057594037927936"]
  by (simp add: pow2_def rne_def Let_def)

lemma rate_0_855:
  "num_mul (Fin (8106479329266893 / 9007199254740992))
     (Fin (4278419646001971 / 4503599627370496))
   = Fin (1925288840700887 / 2251799813685248)"
  using roundToDouble_eval [of "- 1"
      "8106479329266893 / 9007199254740992 * (4278419646001971 / 4503599627370496)"]
  by (simp add: pow2_def rne_def Let_def)

lemma rate_0_945:
  "num_mul (Fin (8106479329266893 / 9007199254740992))
     (Fin (4728779608739021 / 4503599627370496))
   = Fin (4255901647865119 / 4503599627370496)"
  using roundToDouble_eval [of "- 1"
      "8106479329266893 / 9007199254740992 * (4728779608739021 / 4503599627370496)"]
  by (simp add: pow2_def rne_def Let_def)

lemma volatilityOf_usdEur:
  "volatilityOf usdEur = Fin (3602879701896397 / 72057594037927936)"
  by (simp add: volatilityOf_def usdEur_def initialState_def crypto_mem roundToDouble_0_05)

lemma march3_series:
  "fetchHistoricalRates march3 usdEur st =
     Inr (st\<lparr>historicalRates :=
       map (\<lambda>d. \<lparr>date = d, rate = Fin (1925288840700887 / 2251799813685248)\<rparr>)
         [''2024-02-25'', ''2024-02-26'', ''2024-02-27'', ''2024-02-28'', ''2024-02-29'',
          ''2024-03-01'', ''2024-03-02'', ''2024-03-03'']\<rparr>)"
proof -
  have r: "mathRandom march3 = (\<lambda>k. 0)"
    "exchangeRate usdEur = JNum (Fin (8106479329266893 / 9007199254740992))"
    by (simp_all add: march3_def offline_def usdEur_def roundToDouble_0_9)
  show ?thesis
    unfolding fetchHistoricalRates_def Let_def march3_dates volatilityOf_usdEur r
    by (simp add: upt_rec factor_0_05 rate_0_855 del: num_mul.simps num_add.simps)
qed

section \<open>An example: the week up to 17 March 2024 in Eastern time\<close>

lemma march_days:
  "formatDay 19792 = ''2024-03-10''" "formatDay 19793 = ''2024-03-11''"
  "formatDay 19794 = ''2024-03-12''" "formatDay 19795 = ''2024-03-13''"
  "formatDay 19796 = ''2024-03-14''" "formatDay 19797 = ''2024-03-15''"
  "formatDay 19798 = ''2024-03-16''" "formatDay 19799 = ''2024-03-17''"
  using formatDay_2024_mar [of 10] formatDay_2024_mar [of 11] formatDay_2024_mar [of 12]
    formatDay_2024_mar [of 13] formatDay_2024_mar [of 14] formatDay_2024_mar [of 15]
    formatDay_2024_mar [of 16] formatDay_2024_mar [of 17]
  by (simp_all add: addLeadingZeros_def Let_def decimal.simps)

text \<open>
  The clock stands at 02:30 of 17 March. Seven days back is 02:30 of 10 March, a local
  time that the transition skips; it is read with the offset before the transition,
  which gives 07:30 UTC, that is 03:30 local time.
\<close>

lemma march17_today:
  "format_yyyy_MM_dd eastern2024 1710657000000 = ''2024-03-17''"
  by (simp add: format_Day LocalTime_def eastern2024.rep_eq Day_def msPerDay_def march_days)

lemma march17_start:
  "subDays eastern2024 1710657000000 7 = 1710055800000"
  using setDate_shift [of eastern2024 1710657000000 "- 7"]
  by (simp add: subDays_def addDays_def LocalTime_def UTC_def eastern2024.rep_eq msPerDay_def)

text \<open>
  Every round of the loop keeps the local time 03:30, so the last date before the clock
  is 03:30 of 16 March, and 03:30 of 17 March is after the clock.
\<close>

lemma march17_dates:
  "collectDates eastern2024 1710657000000 1710055800000 [] =
     [''2024-03-10'', ''2024-03-11'', ''2024-03-12'', ''2024-03-13'', ''2024-03-14'',
      ''2024-03-15'', ''2024-03-16'']"
  by (simp add: collectDates.simps setDate_shift format_Day LocalTime_def UTC_def
      eastern2024.rep_eq msPerDay_def Day_def march_days)

lemma march17_range:
  assumes "timeRange snap = ''1w''"
  shows "collectDates (timeZone march17) (newDate march17) (getDateRange march17 snap) [] =
     [''2024-03-10'', ''2024-03-11'', ''2024-03-12'', ''2024-03-13'', ''2024-03-14'',
      ''2024-03-15'', ''2024-03-16'']"
proof -
  have "timeZone march17 = eastern2024" "newDate march17 = 1710657000000"
    by (simp_all add: march17_def offline_def)
  moreover from this have "getDateRange march17 snap = 1710055800000"
    by (simp add: getDateRange_def Let_def assms march17_start)
  ultimately show ?thesis by (simp only: march17_dates)
qed

text \<open>
  Claim C5 does not hold of the code in a time zone with daylight saving time. In
  Eastern time, with the clock at 17 March 2024, 02:30, and the range of one week, the
  range starts on 10 March and today is 17 March, which are eight calendar days, but the
  series has seven points, from 10 March to 16 March: it has no point for today.
\<close>

theorem dst_week_series:
  "timeRange ((initialState False)\<lparr>fromCurrency := ''BTC''\<rparr>) = ''1w''
   \<and> format_yyyy_MM_dd (timeZone march17) (newDate march17) = ''2024-03-17''
   \<and> format_yyyy_MM_dd (timeZone march17)
        (getDateRange march17 ((initialState False)\<lparr>fromCurrency := ''BTC''\<rparr>))
       = ''2024-03-10''
   \<and> map date (historicalRates
        (fetchExchangeRate march17 ((initialState False)\<lparr>fromCurrency := ''BTC''\<rparr>)
           ((initialState False)\<lparr>fromCurrency := ''BTC''\<rparr>)))
       = [''2024-03-10'', ''2024-03-11'', ''2024-03-12'', ''2024-03-13'', ''2024-03-14'',
          ''2024-03-15'', ''2024-03-16'']
   \<and> length (historicalRates
        (fetchExchangeRate march17 ((initialState False)\<lparr>fromCurrency := ''BTC''\<rparr>)
           ((initialState False)\<lparr>fromCurrency := ''BTC''\<rparr>))) = 7"
proof -
  let ?s = "(initialState False)\<lparr>fromCurrency := ''BTC''\<rparr>"
  have w: "timeRange ?s = ''1w''" by (simp add: initialState_def)
  have z: "timeZone march17 = eastern2024" "newDate march17 = 1710657000000"
    by (simp_all add: march17_def offline_def)
  have g: "getDateRange march17 ?s = 1710055800000"
    by (simp add: getDateRange_def Let_def w z march17_start)
  have t: "format_yyyy_MM_dd (timeZone march17) (newDate march17) = ''2024-03-17''"
    by (simp only: z march17_today)
  have s: "format_yyyy_MM_dd (timeZone march17) (getDateRange march17 ?s) = ''2024-03-10''"
    unfolding g z
    by (simp add: format_Day LocalTime_def eastern2024.rep_eq Day_def msPerDay_def march_days)
  have "\<exists>r. resolveRate (fetch march17) (fromCurrency ?s) (toCurrency ?s) = ([], Inr r)"
    by (simp add: resolveRate_def crypto_mem)
  then obtain r where r: "snd (resolveRate (fetch march17) (fromCurrency ?s) (toCurrency ?s)) = Inr r"
    by auto
  let ?st = "?s\<lparr>loading := True, error := '''', exchangeRate := r\<rparr>"
  have "exchangeRate ?s = JNum (Fin 0)" by (simp add: initialState_def)
  from fetchHistoricalRates_returns [OF this, of march17 ?st]
  obtain st' where h: "fetchHistoricalRates march17 ?s ?st = Inr st'" by blast
  have "map date (historicalRates st') =
      [''2024-03-10'', ''2024-03-11'', ''2024-03-12'', ''2024-03-13'', ''2024-03-14'',
       ''2024-03-15'', ''2024-03-16'']"
    by (simp only: series_dates [OF h] march17_range [OF w])
  moreover have "historicalRates (fetchExchangeRate march17 ?s ?s) = historicalRates st'"
    using h r by (simp add: fetchExchangeRate_def Let_def)
  ultimately have d: "map date (historicalRates (fetchExchangeRate march17 ?s ?s)) =
      [''2024-03-10'', ''2024-03-11'', ''2024-03-12'', ''2024-03-13'', ''2024-03-14'',
       ''2024-03-15'', ''2024-03-16'']"
    by simp
  have "length (historicalRates (fetchExchangeRate march17 ?s ?s))
      = length (map date (historicalRates (fetchExchangeRate march17 ?s ?s)))"
    by simp
  then have l: "length (historicalRates (fetchExchangeRate march17 ?s ?s)) = 7"
    by (simp only: d) simp
  show ?thesis using w t s d l by simp
qed

section \<open>The rates of the historical series\<close>

text \<open>The two volatilities are doubles between 0 and a half.\<close>

lemma volatilityOf_cases:
  "\<exists>v. volatilityOf snap = Fin v \<and> 0 \<le> v \<and> v \<le> 1 / 2 \<and> roundToDouble v = Fin v"
proof (cases "fromCurrency snap \<in> set cryptoCurrencies \<or> toCurrency snap \<in> set cryptoCurrencies")
  case True
  then have "volatilityOf snap = Fin (5404319552844595 / 36028797018963968)"
    by (simp add: volatilityOf_def roundToDouble_0_15)
  then show ?thesis
    using roundToDouble_idem [OF roundToDouble_0_15]
    by (intro exI [of _ "5404319552844595 / 36028797018963968"]) simp
next
  case False
  then have "volatilityOf snap = Fin (3602879701896397 / 72057594037927936)"
    by (simp add: volatilityOf_def roundToDouble_0_05)
  then show ?thesis
    using roundToDouble_idem [OF roundToDouble_0_05]
    by (intro exI [of _ "3602879701896397 / 72057594037927936"]) simp
qed

text \<open>
  The factor of a day, computed in doubles from a draw \<open>r\<close> and a volatility
  \<open>v\<close>, lies between the doubles \<open>1 - v\<close> and \<open>1 + v\<close>: every operation
  rounds, and rounding keeps the order.
\<close>

lemma factor_bounds:
  assumes "0 \<le> r" and "r < 1" and v: "roundToDouble v = Fin v" and "0 \<le> v" and "v \<le> 1 / 2"
  shows "\<exists>u lo hi.
      num_add (Fin 1) (num_sub (num_mul (num_mul (Fin r) (Fin v)) (Fin 2)) (Fin v)) = Fin u
      \<and> num_sub (Fin 1) (Fin v) = Fin lo \<and> num_add (Fin 1) (Fin v) = Fin hi
      \<and> lo \<le> u \<and> u \<le> hi \<and> 1 / 2 \<le> lo"
proof -
  have dv: "isDouble v" using v by (rule roundToDouble_isDouble)
  have f0: "roundToDouble 0 = Fin 0" by (simp add: roundToDouble_def)
  have fmv: "roundToDouble (- v) = Fin (- v)"
    by (rule roundToDouble_exact) (rule isDouble_minus [OF dv])
  have "\<bar>v * 2\<bar> < pow2 1024" using assms(4,5) by (simp add: pow2_def)
  then have f2v: "roundToDouble (v * 2) = Fin (v * 2)"
    by (intro roundToDouble_exact isDouble_twice dv)
  have f2: "roundToDouble 2 = Fin 2" by (simp add: roundToDouble_numeral)
  have "0 \<le> r * v" using assms(1,4) by simp
  moreover have "r * v \<le> 1 * v" using assms(1,2,4) by (intro mult_right_mono) simp_all
  ultimately obtain t1 where t1: "roundToDouble (r * v) = Fin t1" "0 \<le> t1" "t1 \<le> v"
    using roundToDouble_between [of 0 "r * v" v 0 v] f0 v by auto
  obtain t2 where t2: "roundToDouble (t1 * 2) = Fin t2" "0 \<le> t2" "t2 \<le> v * 2"
    using roundToDouble_between [of 0 "t1 * 2" "v * 2" 0 "v * 2"] f0 f2v t1(2,3) by auto
  obtain t3 where t3: "roundToDouble (t2 - v) = Fin t3" "- v \<le> t3" "t3 \<le> v"
    using roundToDouble_between [of "- v" "t2 - v" v "- v" v] fmv v t2(2,3) by auto
  obtain lo where lo: "roundToDouble (1 - v) = Fin lo" "1 / 2 \<le> lo"
    using roundToDouble_between [of "1 / 2" "1 - v" 1 "1 / 2" 1] roundToDouble_half
      roundToDouble_1 assms(4,5) by auto
  obtain hi where hi: "roundToDouble (1 + v) = Fin hi"
    using roundToDouble_between [of 1 "1 + v" 2 1 2] roundToDouble_1 f2 assms(4,5) by auto
  obtain u where u: "roundToDouble (1 + t3) = Fin u" "lo \<le> u" "u \<le> hi"
    using roundToDouble_between [of "1 - v" "1 + t3" "1 + v" lo hi] lo(1) hi t3(2,3) by auto
  have "num_add (Fin 1) (num_sub (num_mul (num_mul (Fin r) (Fin v)) (Fin 2)) (Fin v)) = Fin u"
    by (simp add: num_sub_def t1(1) t2(1) t3(1) u(1))
  moreover have "num_sub (Fin 1) (Fin v) = Fin lo" by (simp add: num_sub_def lo(1))
  moreover have "num_add (Fin 1) (Fin v) = Fin hi" by (simp add: hi)
  ultimately show ?thesis using u(2,3) lo(2) by blast
qed

text \<open>The points of the series, one for each date, each with its own draw.\<close>

lemma series_points:
  assumes "fetchHistoricalRates p snap st = Inr st'" and "exchangeRate snap = JNum n"
    and "pt \<in> set (historicalRates st')"
  shows "\<exists>k. rate pt =
    num_mul n (num_add (Fin 1)
      (num_sub (num_mul (num_mul (Fin (mathRandom p k)) (volatilityOf snap)) (Fin 2))
        (volatilityOf snap)))"
proof -
  let ?dates = "collectDates (timeZone p) (newDate p) (getDateRange p snap) []"
  let ?f = "\<lambda>(k, d). \<lparr>date = d,
      rate = num_mul n (num_add (Fin 1)
        (num_sub (num_mul (num_mul (Fin (mathRandom p k)) (volatilityOf snap)) (Fin 2))
          (volatilityOf snap)))\<rparr>"
  have "historicalRates st' = [] \<or>
      historicalRates st' = map ?f (zip [0 ..< length ?dates] ?dates)"
    using assms(1,2) by (auto simp: fetchHistoricalRates_def Let_def split: if_splits)
  with assms(3) have "pt \<in> set (map ?f (zip [0 ..< length ?dates] ?dates))" by auto
  then obtain x where "pt = ?f x" by auto
  then show ?thesis by (cases x) auto
qed

text \<open>
  The exchange rate of the component is never the number \<open>NaN\<close>: it starts as 0, the
  crypto cases give finite rates, and the remote case lets only truthy values through.
\<close>

lemma resolveRate_not_NaN: "snd (resolveRate net frm to) \<noteq> Inr (JNum NaN)"
proof (cases "frm \<in> set cryptoCurrencies \<or> to \<in> set cryptoCurrencies")
  case True
  then show ?thesis
    using crypto_rate_pos [of frm] crypto_rate_pos [of to]
    by (auto simp: resolveRate_def calculateCryptoRate_def)
next
  case False
  then show ?thesis
    by (auto simp: resolveRate_def split: fetch_result.splits option.splits sum.splits)
qed

lemma exchangeRate_not_NaN:
  assumes "exchangeRate st \<noteq> JNum NaN"
  shows "exchangeRate (fetchExchangeRate p snap st) \<noteq> JNum NaN"
proof (cases "snd (resolveRate (fetch p) (fromCurrency snap) (toCurrency snap))")
  case (Inl e)
  then show ?thesis
    using assms by (simp add: fetchExchangeRate_def Let_def)
next
  case (Inr r)
  then have "r \<noteq> JNum NaN"
    using resolveRate_not_NaN [of "fetch p" "fromCurrency snap" "toCurrency snap"] by auto
  moreover have "exchangeRate (fetchExchangeRate p snap st) = r"
    using Inr resolved_rate_stored [of p snap "fst (resolveRate (fetch p) (fromCurrency snap) (toCurrency snap))" r st]
    by (simp add: prod_eq_iff)
  ultimately show ?thesis by simp
qed

text \<open>
  Claim C6. The volatility \<open>v\<close> is the double of 0.15 when one of the two
  currencies is in the crypto list and the double of 0.05 otherwise. When every draw
  lies in the interval from 0 to 1, 1 excluded, and the base rate is a number, the
  generation of the series returns, and the rate of every point lies between
  \<open>b * (1 - v)\<close> and \<open>b * (1 + v)\<close>, both computed in doubles as the rate is: for
  a finite \<open>b\<close> that is not negative in this order, for a finite \<open>b\<close> that is
  not positive in the other order, and for an infinite \<open>b\<close> the rate and the two
  bounds are \<open>b\<close>.
\<close>

theorem historical_rate_bounds:
  assumes "\<forall>k. 0 \<le> mathRandom p k \<and> mathRandom p k < 1"
  shows "volatilityOf snap =
      (if fromCurrency snap \<in> set cryptoCurrencies \<or> toCurrency snap \<in> set cryptoCurrencies
       then roundToDouble 0.15 else roundToDouble 0.05)
    \<and> (\<forall>n. exchangeRate snap = JNum n \<longrightarrow>
         (\<exists>st'. fetchHistoricalRates p snap st = Inr st' \<and>
            (\<forall>pt \<in> set (historicalRates st').
               (\<forall>b. n = Fin b \<longrightarrow>
                  (0 \<le> b \<longrightarrow>
                     num_le (num_mul (Fin b) (num_sub (Fin 1) (volatilityOf snap))) (rate pt)
                     \<and> num_le (rate pt) (num_mul (Fin b) (num_add (Fin 1) (volatilityOf snap))))
                  \<and> (b \<le> 0 \<longrightarrow>
                     num_le (num_mul (Fin b) (num_add (Fin 1) (volatilityOf snap))) (rate pt)
                     \<and> num_le (rate pt) (num_mul (Fin b) (num_sub (Fin 1) (volatilityOf snap)))))
               \<and> (n = PosInf \<or> n = NegInf \<longrightarrow>
                    rate pt = n
                    \<and> num_mul n (num_sub (Fin 1) (volatilityOf snap)) = n
                    \<and> num_mul n (num_add (Fin 1) (volatilityOf snap)) = n))))"
proof (intro conjI allI impI)
  show "volatilityOf snap =
      (if fromCurrency snap \<in> set cryptoCurrencies \<or> toCurrency snap \<in> set cryptoCurrencies
       then roundToDouble 0.15 else roundToDouble 0.05)"
    by (simp add: volatilityOf_def)
next
  fix n
  assume n: "exchangeRate snap = JNum n"
  from fetchHistoricalRates_returns [OF n, of p st]
  obtain st' where h: "fetchHistoricalRates p snap st = Inr st'" by blast
  from volatilityOf_cases [of snap] obtain v where
    v: "volatilityOf snap = Fin v" "0 \<le> v" "v \<le> 1 / 2" "roundToDouble v = Fin v"
    by blast
  have "(\<forall>b. n = Fin b \<longrightarrow>
            (0 \<le> b \<longrightarrow>
               num_le (num_mul (Fin b) (num_sub (Fin 1) (volatilityOf snap))) (rate pt)
               \<and> num_le (rate pt) (num_mul (Fin b) (num_add (Fin 1) (volatilityOf snap))))
            \<and> (b \<le> 0 \<longrightarrow>
               num_le (num_mul (Fin b) (num_add (Fin 1) (volatilityOf snap))) (rate pt)
               \<and> num_le (rate pt) (num_mul (Fin b) (num_sub (Fin 1) (volatilityOf snap)))))
         \<and> (n = PosInf \<or> n = NegInf \<longrightarrow>
              rate pt = n
              \<and> num_mul n (num_sub (Fin 1) (volatilityOf snap)) = n
              \<and> num_mul n (num_add (Fin 1) (volatilityOf snap)) = n)"
    if pt: "pt \<in> set (historicalRates st')" for pt
  proof -
    from series_points [OF h n pt] obtain k where
      k: "rate pt = num_mul n (num_add (Fin 1)
        (num_sub (num_mul (num_mul (Fin (mathRandom p k)) (Fin v)) (Fin 2)) (Fin v)))"
      unfolding v(1) by blast
    have "0 \<le> mathRandom p k" "mathRandom p k < 1" using assms by simp_all
    from factor_bounds [OF this v(4,2,3)] obtain u lo hi where
      f: "num_add (Fin 1) (num_sub (num_mul (num_mul (Fin (mathRandom p k)) (Fin v)) (Fin 2))
            (Fin v)) = Fin u"
        "num_sub (Fin 1) (Fin v) = Fin lo" "num_add (Fin 1) (Fin v) = Fin hi"
        "lo \<le> u" "u \<le> hi" "1 / 2 \<le> lo"
      by blast
    have r: "rate pt = num_mul n (Fin u)" by (simp only: k f(1))
    have pos: "0 < lo" "0 < u" "0 < hi" using f(4,5,6) by simp_all
    show ?thesis
    proof (intro conjI allI impI)
      fix b
      assume b: "n = Fin b" and b0: "0 \<le> b"
      have "b * lo \<le> b * u" "b * u \<le> b * hi"
        using b0 f(4,5) by (simp_all add: mult_left_mono)
      then show "num_le (num_mul (Fin b) (num_sub (Fin 1) (volatilityOf snap))) (rate pt)"
        and "num_le (rate pt) (num_mul (Fin b) (num_add (Fin 1) (volatilityOf snap)))"
        unfolding v(1) f(2,3) r b by (simp_all add: roundToDouble_mono)
    next
      fix b
      assume b: "n = Fin b" and b0: "b \<le> 0"
      have "b * hi \<le> b * u" "b * u \<le> b * lo"
        using b0 f(4,5) by (simp_all add: mult_left_mono_neg)
      then show "num_le (num_mul (Fin b) (num_add (Fin 1) (volatilityOf snap))) (rate pt)"
        and "num_le (rate pt) (num_mul (Fin b) (num_sub (Fin 1) (volatilityOf snap)))"
        unfolding v(1) f(2,3) r b by (simp_all add: roundToDouble_mono)
    next
      assume i: "n = PosInf \<or> n = NegInf"
      show "rate pt = n"
        using i r pos by (auto simp: inf_of_def)
      show "num_mul n (num_sub (Fin 1) (volatilityOf snap)) = n"
        unfolding v(1) f(2) using i pos by (auto simp: inf_of_def)
      show "num_mul n (num_add (Fin 1) (volatilityOf snap)) = n"
        unfolding v(1) f(3) using i pos by (auto simp: inf_of_def)
    qed
  qed
  with h show "\<exists>st'. fetchHistoricalRates p snap st = Inr st' \<and>
            (\<forall>pt \<in> set (historicalRates st').
               (\<forall>b. n = Fin b \<longrightarrow>
                  (0 \<le> b \<longrightarrow>
                     num_le (num_mul (Fin b) (num_sub (Fin 1) (volatilityOf snap))) (rate pt)
                     \<and> num_le (rate pt) (num_mul (Fin b) (num_add (Fin 1) (volatilityOf snap))))
                  \<and> (b \<le> 0 \<longrightarrow>
                     num_le (num_mul (Fin b) (num_add (Fin 1) (volatilityOf snap))) (rate pt)
                     \<and> num_le (rate pt) (num_mul (Fin b) (num_sub (Fin 1) (volatilityOf snap)))))
               \<and> (n = PosInf \<or> n = NegInf \<longrightarrow>
                    rate pt = n
                    \<and> num_mul n (num_sub (Fin 1) (volatilityOf snap)) = n
                    \<and> num_mul n (num_add (Fin 1) (volatilityOf snap)) = n))"
    by blast
qed

text \<open>
  The example of 3 March 2024, at a rate of 0.9 with every draw 0: every rate is the
  lower bound, the double 0.855, and the upper bound is the double next above 0.945.
\<close>

theorem historical_rate_bounds_witness:
  "(\<forall>k. 0 \<le> mathRandom march3 k \<and> mathRandom march3 k < 1)
   \<and> exchangeRate usdEur = JNum (Fin (8106479329266893 / 9007199254740992))
   \<and> fetchHistoricalRates march3 usdEur usdEur =
       Inr (usdEur\<lparr>historicalRates :=
         map (\<lambda>d. \<lparr>date = d, rate = Fin (1925288840700887 / 2251799813685248)\<rparr>)
           [''2024-02-25'', ''2024-02-26'', ''2024-02-27'', ''2024-02-28'', ''2024-02-29'',
            ''2024-03-01'', ''2024-03-02'', ''2024-03-03'']\<rparr>)
   \<and> volatilityOf usdEur = Fin (3602879701896397 / 72057594037927936)
   \<and> num_mul (Fin (8106479329266893 / 9007199254740992)) (num_sub (Fin 1) (volatilityOf usdEur))
       = Fin (1925288840700887 / 2251799813685248)
   \<and> num_mul (Fin (8106479329266893 / 9007199254740992)) (num_add (Fin 1) (volatilityOf usdEur))
       = Fin (4255901647865119 / 4503599627370496)
   \<and> num_le (num_mul (Fin (8106479329266893 / 9007199254740992))
               (num_sub (Fin 1) (volatilityOf usdEur)))
        (Fin (1925288840700887 / 2251799813685248))
   \<and> num_le (Fin (1925288840700887 / 2251799813685248))
        (num_mul (Fin (8106479329266893 / 9007199254740992))
           (num_add (Fin 1) (volatilityOf usdEur)))"
proof -
  let ?b = "8106479329266893 / 9007199254740992 :: real"
  let ?pt = "\<lparr>date = ''2024-02-29'', rate = Fin (1925288840700887 / 2251799813685248)\<rparr>"
  have a: "\<forall>k. 0 \<le> mathRandom march3 k \<and> mathRandom march3 k < 1"
    by (simp add: march3_def offline_def)
  have b: "exchangeRate usdEur = JNum (Fin ?b)"
    by (simp add: usdEur_def roundToDouble_0_9)
  note s = march3_series [of usdEur]
  from historical_rate_bounds [OF a, of usdEur usdEur] b obtain st' where
    h: "fetchHistoricalRates march3 usdEur usdEur = Inr st'"
    and bd: "\<forall>pt \<in> set (historicalRates st').
       (\<forall>b. Fin ?b = Fin b \<longrightarrow>
          (0 \<le> b \<longrightarrow>
             num_le (num_mul (Fin b) (num_sub (Fin 1) (volatilityOf usdEur))) (rate pt)
             \<and> num_le (rate pt) (num_mul (Fin b) (num_add (Fin 1) (volatilityOf usdEur))))
          \<and> (b \<le> 0 \<longrightarrow>
             num_le (num_mul (Fin b) (num_add (Fin 1) (volatilityOf usdEur))) (rate pt)
             \<and> num_le (rate pt) (num_mul (Fin b) (num_sub (Fin 1) (volatilityOf usdEur)))))
       \<and> (Fin ?b = PosInf \<or> Fin ?b = NegInf \<longrightarrow>
            rate pt = Fin ?b
            \<and> num_mul (Fin ?b) (num_sub (Fin 1) (volatilityOf usdEur)) = Fin ?b
            \<and> num_mul (Fin ?b) (num_add (Fin 1) (volatilityOf usdEur)) = Fin ?b)"
    by blast
  from h s have "historicalRates st' =
      map (\<lambda>d. \<lparr>date = d, rate = Fin (1925288840700887 / 2251799813685248)\<rparr>)
        [''2024-02-25'', ''2024-02-26'', ''2024-02-27'', ''2024-02-28'', ''2024-02-29'',
         ''2024-03-01'', ''2024-03-02'', ''2024-03-03'']"
    by auto
  then have m: "?pt \<in> set (historicalRates st')"
    by simp
  have p: "0 \<le> ?b" by simp
  from bd [rule_format, OF m, THEN conjunct1, rule_format, OF refl, THEN conjunct1,
      rule_format, OF p]
  have le: "num_le (num_mul (Fin ?b) (num_sub (Fin 1) (volatilityOf usdEur)))
        (Fin (1925288840700887 / 2251799813685248))
      \<and> num_le (Fin (1925288840700887 / 2251799813685248))
        (num_mul (Fin ?b) (num_add (Fin 1) (volatilityOf usdEur)))"
    by simp
  have lo: "num_mul (Fin ?b) (num_sub (Fin 1) (volatilityOf usdEur))
       = Fin (1925288840700887 / 2251799813685248)"
    by (simp only: volatilityOf_usdEur lower_0_05 rate_0_855)
  have hi: "num_mul (Fin ?b) (num_add (Fin 1) (volatilityOf usdEur))
       = Fin (4255901647865119 / 4503599627370496)"
    by (simp only: volatilityOf_usdEur upper_0_05 rate_0_945)
  show ?thesis
    using a b s le lo hi volatilityOf_usdEur by (simp only: simp_thms)
qed

end
